theory Spec2Isabelle
  imports Complex_Main "HOL-Library.Word"
begin

section \<open>Data model of the path manager\<close>

text \<open>
  The development embeds \<^verbatim>\<open>rts/Sim/Path/Default/PathManager.cpp\<close>.
  Positions, distances and costs are single precision values, modelled as reals (rounding,
  infinities and NaN are not modelled); the heat amounts of \<^verbatim>\<open>UpdatePath\<close> are the
  exception: there every operation is rounded to single precision, as the rounding decides
  the integer that is deposited. A conversion of a float to \<^verbatim>\<open>int\<close> truncates towards
  zero.
  Handles are \<^verbatim>\<open>unsigned int\<close>, modelled as 32-bit words, so that the
  increment of the handle counter wraps around as it does in C++.
\<close>

type_synonym pathid = "32 word"

text \<open>Modelled from the spec: \<^verbatim>\<open>float3\<close> and \<^verbatim>\<open>int2\<close> (\<^verbatim>\<open>System/float3.h\<close>) are not
  among the sources. A position has three components; the planar operations ignore the
  height \<open>fy\<close>. The comparison of positions and the bounds of the map are left to the
  collaborators below.\<close>

record float3 =
  fx :: real
  fy :: real
  fz :: real

type_synonym int2 = "int \<times> int"

definition ZeroVector :: float3 where
  "ZeroVector = \<lparr>fx = 0, fy = 0, fz = 0\<rparr>"

definition float2int :: "real \<Rightarrow> int" where
  "float2int v = (if 0 \<le> v then \<lfloor>v\<rfloor> else \<lceil>v\<rceil>)"

text \<open>
  Rounding to single precision (IEEE 754 binary32, round to nearest, ties to even).
  \<open>binade v\<close> is the binary exponent of a positive \<open>v\<close>, the \<open>e\<close> with
  \<open>2 ^ e \<le> v < 2 ^ (e + 1)\<close>; with 24 bits of significand the singles of that binade are
  the multiples of \<open>2 ^ (e - 23)\<close>, and below \<open>2 ^ (- 126)\<close> (the subnormal range) the
  multiples of \<open>2 ^ (- 149)\<close>: \<open>f32_exp v\<close> is the exponent that decides the spacing at
  \<open>v\<close>. \<open>f32 v\<close> is the single nearest to \<open>v\<close>. Overflow to
  infinity (beyond \<open>2 ^ 128\<close>) and NaN are not modelled. The conversion of an integer to
  \<^verbatim>\<open>float\<close> is \<open>f32\<close> of the integer, and a product or quotient of two singles is
  \<open>f32\<close> of the exact one.
\<close>

definition pow2 :: "int \<Rightarrow> real" where
  "pow2 e = (if 0 \<le> e then 2 ^ nat e else 1 / 2 ^ nat (- e))"

function exp_up :: "real \<Rightarrow> int" where
  "exp_up v = (if 2 \<le> v then exp_up (v / 2) + 1 else 0)"
  by pat_completeness auto
termination
proof (relation "measure (\<lambda>v. nat \<lfloor>v\<rfloor>)")
  show "wf (measure (\<lambda>v::real. nat \<lfloor>v\<rfloor>))" by simp
next
  fix v :: real
  assume "2 \<le> v"
  then have "\<lfloor>v / 2\<rfloor> < \<lfloor>v\<rfloor>" "0 < \<lfloor>v\<rfloor>" by linarith+
  then show "(v / 2, v) \<in> measure (\<lambda>v. nat \<lfloor>v\<rfloor>)" by simp
qed

function exp_down :: "real \<Rightarrow> int" where
  "exp_down v = (if 0 < v \<and> v < 1 then exp_down (v * 2) - 1 else 0)"
  by pat_completeness auto
termination
proof (relation "measure (\<lambda>v. nat \<lceil>1 / v\<rceil>)")
  show "wf (measure (\<lambda>v::real. nat \<lceil>1 / v\<rceil>))" by simp
next
  fix v :: real
  assume a: "0 < v \<and> v < 1"
  have half: "nat \<lceil>y / 2\<rceil> < nat \<lceil>y\<rceil>" if "1 < y" for y :: real
  proof -
    from that have c: "2 \<le> \<lceil>y\<rceil>" by (simp add: le_ceiling_iff)
    then have "(2::real) \<le> of_int \<lceil>y\<rceil>" by linarith
    with le_of_int_ceiling [of y] have "y / 2 \<le> of_int \<lceil>y\<rceil> - 1" by linarith
    then have "\<lceil>y / 2\<rceil> < \<lceil>y\<rceil>" by (simp only: ceiling_less_iff)
    with c show ?thesis by linarith
  qed
  from a have "1 < 1 / v" by simp
  from half [OF this] have "nat \<lceil>1 / (v * 2)\<rceil> < nat \<lceil>1 / v\<rceil>"
    by (simp add: mult.commute)
  then show "(v * 2, v) \<in> measure (\<lambda>v. nat \<lceil>1 / v\<rceil>)"
    by (simp only: in_measure)
qed

declare exp_up.simps [simp del] exp_down.simps [simp del]

definition binade :: "real \<Rightarrow> int" where
  "binade v = (if 1 \<le> v then exp_up v else exp_down v)"

definition round_even :: "real \<Rightarrow> int" where
  "round_even r =
     (let f = \<lfloor>r\<rfloor>
      in if r - of_int f < 1 / 2 then f
         else if 1 / 2 < r - of_int f then f + 1
         else if even f then f else f + 1)"

definition f32_exp :: "real \<Rightarrow> int" where
  "f32_exp v = max (binade \<bar>v\<bar>) (- 126)"

definition f32 :: "real \<Rightarrow> real" where
  "f32 v =
     (if v = 0 then 0
      else let q = pow2 (f32_exp v - 23)
           in sgn v * (of_int (round_even (\<bar>v\<bar> / q)) * q))"

definition Square :: "real \<Rightarrow> real" where
  "Square v = v * v"

definition SqDistance2D :: "float3 \<Rightarrow> float3 \<Rightarrow> real" where
  "SqDistance2D a b = (fx a - fx b) * (fx a - fx b) + (fz a - fz b) * (fz a - fz b)"

definition float3_minus :: "float3 \<Rightarrow> float3 \<Rightarrow> float3" where
  "float3_minus a b = \<lparr>fx = fx a - fx b, fy = fy a - fy b, fz = fz a - fz b\<rparr>"

definition SqLength2D :: "float3 \<Rightarrow> real" where
  "SqLength2D a = fx a * fx a + fz a * fz a"

text \<open>Modelled from the spec: \<^verbatim>\<open>IPath::SearchResult\<close> and \<^verbatim>\<open>IPath::Path\<close> (\<^verbatim>\<open>IPath.h\<close>)
  are not among the sources. The outcome of a search is one of four; a path holds the
  waypoints and the squares of one tier, stored in reverse order of traversal, and the goal
  of the tier. \<^verbatim>\<open>back()\<close> is \<^const>\<open>last\<close>, \<^verbatim>\<open>pop_back()\<close> is \<^const>\<open>butlast\<close>,
  \<^verbatim>\<open>push_back(v)\<close> appends.\<close>

datatype SearchResult = Ok | GoalOutOfRange | CantGetCloser | Error

record Path =
  path :: "float3 list"
  squares :: "int2 list"
  pathGoal :: float3

text \<open>Modelled from the spec: of the movement class (\<^verbatim>\<open>MoveDef\<close>) and of the entities
  (\<^verbatim>\<open>CSolidObject\<close>), the fields that the path manager reads.\<close>

record MoveDef =
  pathType :: nat
  heatMapping :: bool
  heatProduced :: real

record CSolidObject =
  objId :: nat
  objMoveDef :: MoveDef

text \<open>Modelled from the spec: the goal definition (\<^verbatim>\<open>CPathFinderDef\<close>,
  \<^verbatim>\<open>CRangedGoalWithCircularConstraint\<close>) is not among the sources. It is kept as the
  arguments of its constructor and the flag that \<^verbatim>\<open>DisableConstraint\<close> sets; its heuristic
  and its squared goal radius are read through the collaborators below.\<close>

record PathFinderDef =
  defStart :: float3
  defGoal :: float3
  defGoalRadius :: real
  defSearchSize :: real
  defExtraSize :: nat
  constraintDisabled :: bool

definition CRangedGoalWithCircularConstraint ::
  "float3 \<Rightarrow> float3 \<Rightarrow> real \<Rightarrow> real \<Rightarrow> nat \<Rightarrow> PathFinderDef" where
  "CRangedGoalWithCircularConstraint sp gp goalRadius searchSize extraSize =
     \<lparr>defStart = sp, defGoal = gp, defGoalRadius = goalRadius, defSearchSize = searchSize,
      defExtraSize = extraSize, constraintDisabled = False\<rparr>"

definition DisableConstraint :: "bool \<Rightarrow> PathFinderDef \<Rightarrow> PathFinderDef" where
  "DisableConstraint b d = d\<lparr>constraintDisabled := b\<rparr>"

text \<open>Modelled from the spec: the hierarchical path record \<^verbatim>\<open>MultiPath\<close> and its
  constructor (\<^verbatim>\<open>PathManager.h\<close>) are not among the sources. A record holds the three
  tiers, the last outcome, the start and the final goal, the requesting entity (if any), the
  goal definition and the movement class; a new record has empty tiers.\<close>

record MultiPath =
  maxResPath :: Path
  medResPath :: Path
  lowResPath :: Path
  searchResult :: SearchResult
  start :: float3
  finalGoal :: float3
  caller :: "CSolidObject option"
  peDef :: PathFinderDef
  mpMoveDef :: MoveDef

definition emptyPath :: Path where
  "emptyPath = \<lparr>path = [], squares = [], pathGoal = ZeroVector\<rparr>"

definition newMultiPath :: "float3 \<Rightarrow> PathFinderDef \<Rightarrow> MoveDef \<Rightarrow> MultiPath" where
  "newMultiPath pos d md =
     \<lparr>maxResPath = emptyPath, medResPath = emptyPath, lowResPath = emptyPath,
      searchResult = Error, start = pos, finalGoal = ZeroVector, caller = None,
      peDef = d, mpMoveDef = md\<rparr>"

subsection \<open>Collaborators\<close>

text \<open>
  The search engines, the blocking map, the heat map and the node-state buffers are not part
  of the path manager, and their sources are not at hand. Every call the manager makes to
  them is appended to a log, and what a collaborator answers is a function of the log so far
  (its state is what it has been told) and of the arguments of the call. The constants of
  \<^verbatim>\<open>PathConstants.h\<close>, the size of the map, the table of movement classes, the methods of
  the goal definition, the largest coordinates of a position on the map (the static members
  \<^verbatim>\<open>maxxpos\<close> and \<^verbatim>\<open>maxzpos\<close> of \<^verbatim>\<open>float3\<close>) and the operation \<^verbatim>\<open>==\<close> of \<^verbatim>\<open>float3\<close>
  are parameters as well.
\<close>

datatype tier = MaxRes | MedRes | LowRes

datatype extcall =
    CallUnBlock CSolidObject
  | CallBlock CSolidObject
  | CallGetPath tier MoveDef float3 PathFinderDef nat "CSolidObject option" bool
  | CallUpdateHeatValue int int int CSolidObject
  | CallSetNodeExtraCost tier nat nat real bool

record externals =
  SQUARE_SIZE :: real
  DETAILED_DISTANCE :: real
  ESTIMATE_DISTANCE :: real
  MIN_DETAILED_DISTANCE :: real
  MIN_ESTIMATE_DISTANCE :: real
  MAX_SEARCHED_NODES_PF :: nat
  MAX_SEARCHED_NODES_PE :: nat
  MAX_SEARCHED_NODES_ON_REFINE :: nat
  mapx :: nat
  mapy :: nat
  maxxpos :: real
  maxzpos :: real
  float3_eq :: "float3 \<Rightarrow> float3 \<Rightarrow> bool"
  moveDefs :: "nat \<Rightarrow> MoveDef"
  Heuristic :: "PathFinderDef \<Rightarrow> real \<Rightarrow> real \<Rightarrow> real"
  sqGoalRadius :: "PathFinderDef \<Rightarrow> real"
  GetPathResult :: "extcall list \<Rightarrow> tier \<Rightarrow> MoveDef \<Rightarrow> float3 \<Rightarrow> PathFinderDef \<Rightarrow> Path \<Rightarrow> nat
                     \<Rightarrow> CSolidObject option \<Rightarrow> bool \<Rightarrow> SearchResult \<times> Path"
  NodeExtraCost :: "extcall list \<Rightarrow> nat \<Rightarrow> nat \<Rightarrow> bool \<Rightarrow> real"

text \<open>The state: the registry, the handle counter, and the log of the calls made to the
  collaborators.\<close>

record pm_state =
  pathMap :: "pathid \<rightharpoonup> MultiPath"
  nextPathID :: pathid
  calls :: "extcall list"

definition init_state :: pm_state where
  "init_state = \<lparr>pathMap = Map.empty, nextPathID = 0, calls = []\<rparr>"

definition noPathPoint :: float3 where
  "noPathPoint = \<lparr>fx = - 1, fy = 0, fz = - 1\<rparr>"

text \<open>Modelled from the spec: \<^verbatim>\<open>GetMultiPath\<close> (\<^verbatim>\<open>PathManager.h\<close>) looks the handle up
  in the registry; an unknown handle gives no record.\<close>

definition GetMultiPath :: "pm_state \<Rightarrow> pathid \<Rightarrow> MultiPath option" where
  "GetMultiPath s pathID = pathMap s pathID"

text \<open>Modelled from the spec: \<^verbatim>\<open>float3::ClampInBounds\<close> (\<^verbatim>\<open>System/float3.h\<close>) is not among
  the sources. It clamps a position into the bounds of the map: the planar components
  \<open>fx\<close> and \<open>fz\<close> are moved into \<open>[0, maxxpos]\<close> and \<open>[0, maxzpos]\<close>, each to the nearest
  value there, and the height is left as it is. A position is in bounds when its planar
  components lie in these intervals.\<close>

definition ClampInBounds :: "externals \<Rightarrow> float3 \<Rightarrow> float3" where
  "ClampInBounds env p =
     p\<lparr>fx := min (maxxpos env) (max 0 (fx p)), fz := min (maxzpos env) (max 0 (fz p))\<rparr>"


section \<open>Operations\<close>

subsection \<open>Store and DeletePath\<close>

definition Store :: "MultiPath \<Rightarrow> pm_state \<Rightarrow> pathid \<times> pm_state" where
  "Store mp s =
     (let s' = s\<lparr>nextPathID := nextPathID s + 1\<rparr>
      in (nextPathID s', s'\<lparr>pathMap := (pathMap s')(nextPathID s' \<mapsto> mp)\<rparr>))"

definition DeletePath :: "pathid \<Rightarrow> pm_state \<Rightarrow> pm_state" where
  "DeletePath pathID s =
     (if pathID = 0 then s
      else case pathMap s pathID of
             None \<Rightarrow> s
           | Some multiPath \<Rightarrow> s\<lparr>pathMap := (pathMap s)(pathID := None)\<rparr>)"

subsection \<open>The search calls\<close>

definition UnBlock :: "CSolidObject option \<Rightarrow> extcall list \<Rightarrow> extcall list" where
  "UnBlock c cs = (case c of None \<Rightarrow> cs | Some ob \<Rightarrow> cs @ [CallUnBlock ob])"

definition Block :: "CSolidObject option \<Rightarrow> extcall list \<Rightarrow> extcall list" where
  "Block c cs = (case c of None \<Rightarrow> cs | Some ob \<Rightarrow> cs @ [CallBlock ob])"

text \<open>\<^verbatim>\<open>maxResPF->GetPath(moveDef, startPos, pfDef, multiPath.maxResPath, ..., maxNodes,
  ..., owner, synced)\<close>: the engine rewrites the fine tier of the record and returns its
  outcome.\<close>

definition maxResPF_GetPath ::
  "externals \<Rightarrow> MoveDef \<Rightarrow> float3 \<Rightarrow> PathFinderDef \<Rightarrow> nat \<Rightarrow> CSolidObject option \<Rightarrow> bool
     \<Rightarrow> MultiPath \<times> extcall list \<Rightarrow> SearchResult \<times> MultiPath \<times> extcall list" where
  "maxResPF_GetPath env md sp d maxNodes ownr synced = (\<lambda>(mp, cs).
     (let (r, p) = GetPathResult env cs MaxRes md sp d (maxResPath mp) maxNodes ownr synced
      in (r, mp\<lparr>maxResPath := p\<rparr>, cs @ [CallGetPath MaxRes md sp d maxNodes ownr synced])))"

definition medResPE_GetPath ::
  "externals \<Rightarrow> MoveDef \<Rightarrow> float3 \<Rightarrow> PathFinderDef \<Rightarrow> nat \<Rightarrow> bool
     \<Rightarrow> MultiPath \<times> extcall list \<Rightarrow> SearchResult \<times> MultiPath \<times> extcall list" where
  "medResPE_GetPath env md sp d maxNodes synced = (\<lambda>(mp, cs).
     (let (r, p) = GetPathResult env cs MedRes md sp d (medResPath mp) maxNodes None synced
      in (r, mp\<lparr>medResPath := p\<rparr>, cs @ [CallGetPath MedRes md sp d maxNodes None synced])))"

definition lowResPE_GetPath ::
  "externals \<Rightarrow> MoveDef \<Rightarrow> float3 \<Rightarrow> PathFinderDef \<Rightarrow> nat \<Rightarrow> bool
     \<Rightarrow> MultiPath \<times> extcall list \<Rightarrow> SearchResult \<times> MultiPath \<times> extcall list" where
  "lowResPE_GetPath env md sp d maxNodes synced = (\<lambda>(mp, cs).
     (let (r, p) = GetPathResult env cs LowRes md sp d (lowResPath mp) maxNodes None synced
      in (r, mp\<lparr>lowResPath := p\<rparr>, cs @ [CallGetPath LowRes md sp d maxNodes None synced])))"

subsection \<open>Cross-tier refinement\<close>

function pop_back_while :: "('a \<Rightarrow> bool) \<Rightarrow> 'a list \<Rightarrow> 'a list" where
  "pop_back_while P xs = (if xs \<noteq> [] \<and> P (last xs) then pop_back_while P (butlast xs) else xs)"
  by pat_completeness auto
termination
  by (relation "measure (\<lambda>(P, xs). length xs)") auto

declare pop_back_while.simps [simp del]

text \<open>Converts part of a med-res path into a high-res path.\<close>

definition MedRes2MaxRes ::
  "externals \<Rightarrow> float3 \<Rightarrow> CSolidObject option \<Rightarrow> bool
     \<Rightarrow> MultiPath \<times> extcall list \<Rightarrow> MultiPath \<times> extcall list" where
  "MedRes2MaxRes env startPos ownr synced = (\<lambda>(multiPath, cs).
     if path (medResPath multiPath) = [] then (multiPath, cs)
     else
       let medp = pop_back_while
                    (\<lambda>w. SqDistance2D w startPos < Square (DETAILED_DISTANCE env * SQUARE_SIZE env))
                    (butlast (path (medResPath multiPath)));
           mp1 = multiPath\<lparr>medResPath := (medResPath multiPath)\<lparr>path := medp\<rparr>\<rparr>;
           goalPos = (if medp = [] then pathGoal (medResPath mp1) else last medp);
           rangedGoalPFD = CRangedGoalWithCircularConstraint startPos goalPos 0 2 1000;
           (result, mp2, cs2) =
             (if medp = [] \<and> path (lowResPath mp1) = []
              then maxResPF_GetPath env (mpMoveDef mp1) startPos (peDef mp1)
                     (drop_bit 3 (MAX_SEARCHED_NODES_PF env)) ownr synced (mp1, cs)
              else maxResPF_GetPath env (mpMoveDef mp1) startPos rangedGoalPFD
                     (drop_bit 3 (MAX_SEARCHED_NODES_PF env)) ownr synced (mp1, cs))
       in (if result = CantGetCloser \<or> result = Error
           then mp2\<lparr>maxResPath := (maxResPath mp2)\<lparr>pathGoal := goalPos\<rparr>\<rparr>
           else mp2, cs2))"

text \<open>Converts part of a low-res path into a med-res path.\<close>

definition LowRes2MedRes ::
  "externals \<Rightarrow> float3 \<Rightarrow> CSolidObject option \<Rightarrow> bool
     \<Rightarrow> MultiPath \<times> extcall list \<Rightarrow> MultiPath \<times> extcall list" where
  "LowRes2MedRes env startPos ownr synced = (\<lambda>(multiPath, cs).
     if path (lowResPath multiPath) = [] then (multiPath, cs)
     else
       let lowp = pop_back_while
                    (\<lambda>w. SqDistance2D w startPos < Square (ESTIMATE_DISTANCE env * SQUARE_SIZE env))
                    (butlast (path (lowResPath multiPath)));
           mp1 = multiPath\<lparr>lowResPath := (lowResPath multiPath)\<lparr>path := lowp\<rparr>\<rparr>;
           goalPos = (if lowp = [] then pathGoal (lowResPath mp1) else last lowp);
           rangedGoal = CRangedGoalWithCircularConstraint startPos goalPos 0 2 20;
           (result, mp2, cs2) =
             (if lowp = []
              then medResPE_GetPath env (mpMoveDef mp1) startPos (peDef mp1)
                     (MAX_SEARCHED_NODES_ON_REFINE env) synced (mp1, cs)
              else medResPE_GetPath env (mpMoveDef mp1) startPos rangedGoal
                     (MAX_SEARCHED_NODES_ON_REFINE env) synced (mp1, cs))
       in (if result = CantGetCloser \<or> result = Error
           then mp2\<lparr>medResPath := (medResPath mp2)\<lparr>pathGoal := goalPos\<rparr>\<rparr>
           else mp2, cs2))"

subsection \<open>RequestPath\<close>

text \<open>\<^verbatim>\<open>pfDef->DisableConstraint(true)\<close>: the record under construction holds the goal
  definition (\<^verbatim>\<open>peDef\<close> is the same object as \<^verbatim>\<open>pfDef\<close>).\<close>

definition pfDef_DisableConstraint :: "MultiPath \<times> extcall list \<Rightarrow> MultiPath \<times> extcall list" where
  "pfDef_DisableConstraint = (\<lambda>(mp, cs). (mp\<lparr>peDef := DisableConstraint True (peDef mp)\<rparr>, cs))"

text \<open>The choice of the engine by the projected goal distance, with
  \<^verbatim>\<open>PM_UNCONSTRAINED_MAXRES_FALLBACK_SEARCH = 0\<close>,
  \<^verbatim>\<open>PM_UNCONSTRAINED_MEDRES_FALLBACK_SEARCH = 1\<close> and
  \<^verbatim>\<open>PM_UNCONSTRAINED_LOWRES_FALLBACK_SEARCH = 1\<close>.\<close>

definition goalDist2D :: "externals \<Rightarrow> PathFinderDef \<Rightarrow> float3 \<Rightarrow> float3 \<Rightarrow> real" where
  "goalDist2D env pfDef startPos goalPos =
     Heuristic env pfDef (fx startPos / SQUARE_SIZE env) (fz startPos / SQUARE_SIZE env)
       + \<bar>fy goalPos - fy startPos\<bar> / SQUARE_SIZE env"

definition search_short ::
  "externals \<Rightarrow> MoveDef \<Rightarrow> float3 \<Rightarrow> CSolidObject option \<Rightarrow> bool
     \<Rightarrow> MultiPath \<times> extcall list \<Rightarrow> SearchResult \<times> MultiPath \<times> extcall list" where
  "search_short env moveDef startPos cal synced st0 =
     (let pfDef = peDef (fst st0);
          (r1, st1) = maxResPF_GetPath env moveDef startPos pfDef
                        (drop_bit 3 (MAX_SEARCHED_NODES_PF env)) cal synced st0;
          (r2, st2) = (if r1 \<noteq> Ok
                       then medResPE_GetPath env moveDef startPos pfDef
                              (drop_bit 3 (MAX_SEARCHED_NODES_PE env)) synced st1
                       else (r1, st1));
          (r3, st3) = (if r2 \<noteq> Ok
                       then lowResPE_GetPath env moveDef startPos pfDef
                              (drop_bit 3 (MAX_SEARCHED_NODES_PE env)) synced st2
                       else (r2, st2))
      in (r3, st3))"

definition search_medium ::
  "externals \<Rightarrow> MoveDef \<Rightarrow> float3 \<Rightarrow> float3 \<Rightarrow> CSolidObject option \<Rightarrow> bool
     \<Rightarrow> MultiPath \<times> extcall list \<Rightarrow> SearchResult \<times> MultiPath \<times> extcall list" where
  "search_medium env moveDef startPos goalPos cal synced st0 =
     (let pfDef = peDef (fst st0);
          (r1, st1) = medResPE_GetPath env moveDef startPos pfDef
                        (drop_bit 3 (MAX_SEARCHED_NODES_PE env)) synced st0;
          (r2, st2) = (if r1 = CantGetCloser
                          \<and> SqLength2D (float3_minus startPos goalPos) > sqGoalRadius env pfDef
                       then maxResPF_GetPath env moveDef startPos pfDef
                              (drop_bit 3 (MAX_SEARCHED_NODES_PF env)) cal synced st1
                       else (r1, st1));
          st2' = pfDef_DisableConstraint st2;
          (r3, st3) = (if r2 \<noteq> Ok
                       then medResPE_GetPath env moveDef startPos (peDef (fst st2'))
                              (drop_bit 3 (MAX_SEARCHED_NODES_PE env)) synced st2'
                       else (r2, st2'))
      in (r3, st3))"

definition search_long ::
  "externals \<Rightarrow> MoveDef \<Rightarrow> float3 \<Rightarrow> float3 \<Rightarrow> CSolidObject option \<Rightarrow> bool
     \<Rightarrow> MultiPath \<times> extcall list \<Rightarrow> SearchResult \<times> MultiPath \<times> extcall list" where
  "search_long env moveDef startPos goalPos cal synced st0 =
     (let pfDef = peDef (fst st0);
          (r1, st1) = lowResPE_GetPath env moveDef startPos pfDef
                        (drop_bit 3 (MAX_SEARCHED_NODES_PE env)) synced st0;
          (r3, st3) =
            (if r1 = CantGetCloser
                 \<and> SqLength2D (float3_minus startPos goalPos) > sqGoalRadius env pfDef
             then (let (r2, st2) = medResPE_GetPath env moveDef startPos pfDef
                                     (drop_bit 3 (MAX_SEARCHED_NODES_PE env)) synced st1
                   in if r2 = CantGetCloser
                      then maxResPF_GetPath env moveDef startPos pfDef
                             (drop_bit 3 (MAX_SEARCHED_NODES_PF env)) cal synced st2
                      else (r2, st2))
             else (r1, st1));
          st3' = pfDef_DisableConstraint st3;
          (r4, st4) = (if r3 \<noteq> Ok
                       then lowResPE_GetPath env moveDef startPos (peDef (fst st3'))
                              (drop_bit 3 (MAX_SEARCHED_NODES_PE env)) synced st3'
                       else (r3, st3'))
      in (r4, st4))"

definition RequestPath_search ::
  "externals \<Rightarrow> MoveDef \<Rightarrow> float3 \<Rightarrow> float3 \<Rightarrow> CSolidObject option \<Rightarrow> bool
     \<Rightarrow> MultiPath \<times> extcall list \<Rightarrow> SearchResult \<times> MultiPath \<times> extcall list" where
  "RequestPath_search env moveDef startPos goalPos cal synced st0 =
     (let d = goalDist2D env (peDef (fst st0)) startPos goalPos
      in if d < DETAILED_DISTANCE env then search_short env moveDef startPos cal synced st0
         else if d < ESTIMATE_DISTANCE env
              then search_medium env moveDef startPos goalPos cal synced st0
              else search_long env moveDef startPos goalPos cal synced st0)"

text \<open>The dummy waypoint of a \<^verbatim>\<open>CantGetCloser\<close> request.\<close>

definition add_dummy_waypoint :: "externals \<Rightarrow> float3 \<Rightarrow> MultiPath \<Rightarrow> MultiPath" where
  "add_dummy_waypoint env startPos newPath =
     (if path (maxResPath newPath) = []
      then newPath\<lparr>maxResPath := (maxResPath newPath)
             \<lparr>path := path (maxResPath newPath) @ [startPos],
              squares := squares (maxResPath newPath)
                 @ [(float2int (fx startPos / SQUARE_SIZE env),
                     float2int (fz startPos / SQUARE_SIZE env))]\<rparr>\<rparr>
      else newPath)"

text \<open>The record that \<^verbatim>\<open>RequestPath\<close> creates before it searches.\<close>

definition RequestPath_newPath ::
  "float3 \<Rightarrow> float3 \<Rightarrow> PathFinderDef \<Rightarrow> MoveDef \<Rightarrow> CSolidObject option \<Rightarrow> MultiPath" where
  "RequestPath_newPath startPos goalPos pfDef moveDef cal =
     (newMultiPath startPos pfDef moveDef)\<lparr>finalGoal := goalPos, caller := cal\<rparr>"

text \<open>\<^verbatim>\<open>RequestPath(md, startPos, goalPos, pfDef, caller, synced)\<close>, returning the final
  value of the local \<^verbatim>\<open>result\<close> beside the handle.\<close>

definition RequestPath_result ::
  "externals \<Rightarrow> MoveDef \<Rightarrow> float3 \<Rightarrow> float3 \<Rightarrow> PathFinderDef \<Rightarrow> CSolidObject option \<Rightarrow> bool
     \<Rightarrow> pm_state \<Rightarrow> SearchResult \<times> pathid \<times> pm_state" where
  "RequestPath_result env md startPos goalPos pfDef cal synced s =
     (let moveDef = moveDefs env (pathType md);
          newPath = RequestPath_newPath startPos goalPos pfDef moveDef cal;
          cs1 = UnBlock cal (calls s);
          (result, newPath1, cs2) =
            RequestPath_search env moveDef startPos goalPos cal synced (newPath, cs1)
      in if result \<noteq> Error
         then
           let (newPath2, cs3) =
                 (if result \<noteq> CantGetCloser
                  then MedRes2MaxRes env startPos cal synced
                         (LowRes2MedRes env startPos cal synced (newPath1, cs2))
                  else (add_dummy_waypoint env startPos newPath1, cs2));
               (pathID, s1) = Store (newPath2\<lparr>searchResult := result\<rparr>) (s\<lparr>calls := cs3\<rparr>)
           in (result, pathID, s1\<lparr>calls := Block cal (calls s1)\<rparr>)
         else (result, 0, s\<lparr>calls := Block cal cs2\<rparr>))"

definition RequestPath ::
  "externals \<Rightarrow> MoveDef \<Rightarrow> float3 \<Rightarrow> float3 \<Rightarrow> PathFinderDef \<Rightarrow> CSolidObject option \<Rightarrow> bool
     \<Rightarrow> pm_state \<Rightarrow> pathid \<times> pm_state" where
  "RequestPath env md startPos goalPos pfDef cal synced s =
     snd (RequestPath_result env md startPos goalPos pfDef cal synced s)"

text \<open>\<^verbatim>\<open>RequestPath(moveDef, startPos, goalPos, goalRadius, caller, synced)\<close>.\<close>

definition RequestPath_goalRadius ::
  "externals \<Rightarrow> MoveDef \<Rightarrow> float3 \<Rightarrow> float3 \<Rightarrow> real \<Rightarrow> CSolidObject option \<Rightarrow> bool
     \<Rightarrow> pm_state \<Rightarrow> pathid \<times> pm_state" where
  "RequestPath_goalRadius env md startPos goalPos goalRadius cal synced s =
     (let sp = ClampInBounds env startPos;
          gp = ClampInBounds env goalPos;
          pfDef = CRangedGoalWithCircularConstraint sp gp goalRadius 3 2000
      in RequestPath env md sp gp pfDef cal synced s)"

subsection \<open>NextWayPoint\<close>

text \<open>The check whether the detailed path needs bettering, and the refinement.\<close>

definition needs_MedRes2MaxRes :: "externals \<Rightarrow> MultiPath \<Rightarrow> float3 \<Rightarrow> bool" where
  "needs_MedRes2MaxRes env multiPath callerPos \<longleftrightarrow>
     path (medResPath multiPath) \<noteq> [] \<and>
     (SqDistance2D (last (path (medResPath multiPath))) callerPos
         < Square (MIN_DETAILED_DISTANCE env * SQUARE_SIZE env)
      \<or> length (path (maxResPath multiPath)) \<le> 2)"

definition needs_LowRes2MedRes :: "externals \<Rightarrow> MultiPath \<Rightarrow> float3 \<Rightarrow> bool" where
  "needs_LowRes2MedRes env multiPath callerPos \<longleftrightarrow>
     path (lowResPath multiPath) \<noteq> [] \<and>
     (SqDistance2D (last (path (lowResPath multiPath))) callerPos
         < Square (MIN_ESTIMATE_DISTANCE env * SQUARE_SIZE env)
      \<or> length (path (medResPath multiPath)) \<le> 2)"

definition NextWayPoint_refine ::
  "externals \<Rightarrow> float3 \<Rightarrow> CSolidObject option \<Rightarrow> bool
     \<Rightarrow> MultiPath \<times> extcall list \<Rightarrow> MultiPath \<times> extcall list" where
  "NextWayPoint_refine env callerPos ownr synced = (\<lambda>(multiPath, cs).
     if needs_MedRes2MaxRes env multiPath callerPos
     then
       let (mp1, cs1) = (if needs_LowRes2MedRes env multiPath callerPos
                         then LowRes2MedRes env callerPos ownr synced (multiPath, cs)
                         else (multiPath, cs));
           cs2 = UnBlock (caller mp1) cs1;
           (mp2, cs3) = MedRes2MaxRes env callerPos ownr synced (mp1, cs2)
       in (mp2, Block (caller mp2) cs3)
     else (multiPath, cs))"

text \<open>The \<^verbatim>\<open>do ... while\<close> loop: \<open>Some waypoint\<close> when the loop leaves with a waypoint,
  \<open>None\<close> when it leaves through the recursive call of \<^verbatim>\<open>NextWayPoint\<close>.\<close>

function NextWayPoint_loop ::
  "externals \<Rightarrow> float3 \<Rightarrow> real \<Rightarrow> MultiPath \<Rightarrow> float3 option \<times> MultiPath" where
  "NextWayPoint_loop env callerPos minDistance multiPath =
     (if path (maxResPath multiPath) = []
      then (if path (lowResPath multiPath) = [] \<and> path (medResPath multiPath) = []
            then (if searchResult multiPath = Ok
                  then (Some (finalGoal multiPath), multiPath)
                  else (Some noPathPoint, multiPath))
            else (None, multiPath))
      else
        let waypoint = last (path (maxResPath multiPath));
            mp' = multiPath\<lparr>maxResPath := (maxResPath multiPath)
                    \<lparr>path := butlast (path (maxResPath multiPath))\<rparr>\<rparr>
        in if SqDistance2D callerPos waypoint < Square minDistance
              \<and> \<not> float3_eq env waypoint (pathGoal (maxResPath mp'))
           then NextWayPoint_loop env callerPos minDistance mp'
           else (Some waypoint, mp'))"
  by pat_completeness auto
termination
  by (relation "measure (\<lambda>(env, c, d, mp). length (path (maxResPath mp)))") auto

declare NextWayPoint_loop.simps [simp del]

text \<open>A zero caller position is replaced by the next waypoint of the fine tier.\<close>

definition NextWayPoint_callerPos :: "externals \<Rightarrow> MultiPath \<Rightarrow> float3 \<Rightarrow> float3" where
  "NextWayPoint_callerPos env multiPath callerPos =
     (if float3_eq env callerPos ZeroVector \<and> path (maxResPath multiPath) \<noteq> []
      then last (path (maxResPath multiPath)) else callerPos)"

function NextWayPoint ::
  "externals \<Rightarrow> pathid \<Rightarrow> float3 \<Rightarrow> real \<Rightarrow> int \<Rightarrow> CSolidObject option \<Rightarrow> bool
     \<Rightarrow> pm_state \<Rightarrow> float3 \<times> pm_state" where
  "NextWayPoint env pathID callerPos minDistance numRetries ownr synced s =
     (if pathID = 0 then (noPathPoint, s)
      else if numRetries > 4 then (noPathPoint, s)
      else case GetMultiPath s pathID of
             None \<Rightarrow> (noPathPoint, s)
           | Some multiPath \<Rightarrow>
               let callerPos' = NextWayPoint_callerPos env multiPath callerPos;
                   st1 = NextWayPoint_refine env callerPos' ownr synced (multiPath, calls s);
                   lp = NextWayPoint_loop env callerPos' minDistance (fst st1);
                   s' = (s\<lparr>calls := snd st1\<rparr>)\<lparr>pathMap := (pathMap s)(pathID \<mapsto> snd lp)\<rparr>
               in case fst lp of
                    Some waypoint \<Rightarrow> (waypoint\<lparr>fy := 0\<rparr>, s')
                  | None \<Rightarrow>
                      let rc = NextWayPoint env pathID callerPos' minDistance (numRetries + 1)
                                 ownr synced s'
                      in ((fst rc)\<lparr>fy := 0\<rparr>, snd rc))"
  by pat_completeness auto
termination
  by (relation "measure (\<lambda>(env, pathID, callerPos, minDistance, numRetries, ownr, synced, s).
                  nat (5 - numRetries))") auto

declare NextWayPoint.simps [simp del]

subsection \<open>UpdatePath and the heat map\<close>

definition SetHeatOnSquare :: "int \<Rightarrow> int \<Rightarrow> int \<Rightarrow> CSolidObject \<Rightarrow> extcall list \<Rightarrow> extcall list" where
  "SetHeatOnSquare px py v ownr cs = cs @ [CallUpdateHeatValue px py v ownr]"

definition GetDetailedPathSquares :: "pm_state \<Rightarrow> pathid \<Rightarrow> int2 list" where
  "GetDetailedPathSquares s pathID =
     (case GetMultiPath s pathID of
        None \<Rightarrow> []
      | Some multiPath \<Rightarrow> rev (squares (maxResPath multiPath)))"

text \<open>The loop over \<^verbatim>\<open>points\<close>, with the counter \<^verbatim>\<open>i\<close> that starts at the number of
  points and is decremented after each deposit. The amount \<^verbatim>\<open>i * scale * heatProduced\<close> is
  computed in single precision, from the left: \<^verbatim>\<open>i\<close> is converted, the heat is read as a
  single (rounding leaves a single as it is, and converts an integer), the two products
  are rounded, and the result is truncated to the \<^verbatim>\<open>int\<close> that \<^verbatim>\<open>SetHeatOnSquare\<close>
  takes.\<close>

fun UpdatePath_loop :: "real \<Rightarrow> CSolidObject \<Rightarrow> int2 list \<Rightarrow> nat \<Rightarrow> extcall list \<Rightarrow> extcall list" where
  "UpdatePath_loop scale ownr [] i cs = cs"
| "UpdatePath_loop scale ownr (p # ps) i cs =
     UpdatePath_loop scale ownr ps (i - 1)
       (SetHeatOnSquare (fst p) (snd p)
          (float2int (f32 (f32 (f32 (real i) * scale) * f32 (heatProduced (objMoveDef ownr)))))
          ownr cs)"

text \<open>\<^verbatim>\<open>scale = 1.0f / points.size()\<close>: the size is converted to \<^verbatim>\<open>float\<close> and the
  quotient is rounded.\<close>

definition UpdatePath :: "CSolidObject \<Rightarrow> pathid \<Rightarrow> pm_state \<Rightarrow> pm_state" where
  "UpdatePath ownr pathID s =
     (if pathID = 0 then s
      else if \<not> heatMapping (objMoveDef ownr) then s
      else let points = GetDetailedPathSquares s pathID
           in if points \<noteq> []
              then s\<lparr>calls := UpdatePath_loop (f32 (1 / f32 (real (length points)))) ownr points
                                (length points) (calls s)\<rparr>
              else s)"

subsection \<open>The extra-cost overlay\<close>

definition SetNodeExtraCost ::
  "externals \<Rightarrow> nat \<Rightarrow> nat \<Rightarrow> real \<Rightarrow> bool \<Rightarrow> pm_state \<Rightarrow> bool \<times> pm_state" where
  "SetNodeExtraCost env px pz cost synced s =
     (if px \<ge> mapx env then (False, s)
      else if pz \<ge> mapy env then (False, s)
      else (True, s\<lparr>calls := calls s @
              [CallSetNodeExtraCost MaxRes px pz cost synced,
               CallSetNodeExtraCost MedRes px pz cost synced,
               CallSetNodeExtraCost LowRes px pz cost synced]\<rparr>))"

definition GetNodeExtraCost :: "externals \<Rightarrow> nat \<Rightarrow> nat \<Rightarrow> bool \<Rightarrow> pm_state \<Rightarrow> real" where
  "GetNodeExtraCost env px pz synced s =
     (if px \<ge> mapx env then 0
      else if pz \<ge> mapy env then 0
      else NodeExtraCost env (calls s) px pz synced)"

section \<open>A concrete map and concrete engines\<close>

text \<open>The constants of the engine (\<^verbatim>\<open>PathConstants.h\<close>) on a map of 100 by 100 squares of
  size 8, with positions up to 799 in either direction.
  The engines of \<open>test_env\<close> never find a way and leave the path they are given as it
  is; other engines are put in their place where a scenario needs them.\<close>

definition test_env :: externals where
  "test_env =
     \<lparr>SQUARE_SIZE = 8, DETAILED_DISTANCE = 25, ESTIMATE_DISTANCE = 55,
      MIN_DETAILED_DISTANCE = 12, MIN_ESTIMATE_DISTANCE = 40,
      MAX_SEARCHED_NODES_PF = 65536, MAX_SEARCHED_NODES_PE = 65536,
      MAX_SEARCHED_NODES_ON_REFINE = 2000,
      mapx = 100, mapy = 100, maxxpos = 799, maxzpos = 799,
      float3_eq = (=),
      moveDefs = (\<lambda>n. \<lparr>pathType = n, heatMapping = True, heatProduced = 30\<rparr>),
      Heuristic = (\<lambda>d px pz. max \<bar>px - fx (defGoal d) / 8\<bar> \<bar>pz - fz (defGoal d) / 8\<bar>),
      sqGoalRadius = (\<lambda>d. defGoalRadius d * defGoalRadius d),
      GetPathResult = (\<lambda>cs t md sp d p n ow sy. (CantGetCloser, p)),
      NodeExtraCost = (\<lambda>cs px pz sy. 0)\<rparr>"

definition test_md :: MoveDef where
  "test_md = \<lparr>pathType = 0, heatMapping = True, heatProduced = 30\<rparr>"

definition pos :: "real \<Rightarrow> real \<Rightarrow> float3" where
  "pos px pz = \<lparr>fx = px, fy = 0, fz = pz\<rparr>"

definition test_def :: "float3 \<Rightarrow> float3 \<Rightarrow> PathFinderDef" where
  "test_def sp gp = CRangedGoalWithCircularConstraint sp gp 0 3 2000"

definition test_unit :: CSolidObject where
  "test_unit = \<lparr>objId = 1, objMoveDef = test_md\<rparr>"

section \<open>Runs of the manager\<close>

text \<open>The registry is well formed when every handle in use is non-zero and at most the
  counter.\<close>

definition registry_inv :: "pm_state \<Rightarrow> bool" where
  "registry_inv s \<longleftrightarrow> (\<forall>k. pathMap s k \<noteq> None \<longrightarrow> k \<noteq> 0 \<and> k \<le> nextPathID s)"

text \<open>A run is a list of calls of the public operations; \<open>issued_handles\<close> collects, in
  order, the handles that the requests of the run return when their outcome is not
  \<^verbatim>\<open>Error\<close>.\<close>

datatype pm_op =
    OpRequestPath MoveDef float3 float3 PathFinderDef "CSolidObject option" bool
  | OpDeletePath pathid
  | OpNextWayPoint pathid float3 real "CSolidObject option" bool
  | OpUpdatePath CSolidObject pathid

fun issued_handles :: "externals \<Rightarrow> pm_op list \<Rightarrow> pm_state \<Rightarrow> pathid list" where
  "issued_handles env [] s = []"
| "issued_handles env (OpRequestPath md sp gp pfDef cal synced # ops) s =
     (let (result, pathID, s') = RequestPath_result env md sp gp pfDef cal synced s
      in (if result \<noteq> Error then [pathID] else []) @ issued_handles env ops s')"
| "issued_handles env (OpDeletePath pathID # ops) s = issued_handles env ops (DeletePath pathID s)"
| "issued_handles env (OpNextWayPoint pathID callerPos minDistance ownr synced # ops) s =
     issued_handles env ops (snd (NextWayPoint env pathID callerPos minDistance 0 ownr synced s))"
| "issued_handles env (OpUpdatePath ownr pathID # ops) s =
     issued_handles env ops (UpdatePath ownr pathID s)"

text \<open>\<open>n\<close> times: a request, whose path is deleted at once.\<close>

fun request_delete_cycles :: "externals \<Rightarrow> nat \<Rightarrow> pm_state \<Rightarrow> pm_state" where
  "request_delete_cycles env 0 s = s"
| "request_delete_cycles env (Suc n) s =
     (let (pathID, s') = RequestPath env test_md (pos 0 0) (pos 0 0) (test_def (pos 0 0) (pos 0 0))
                           None True (request_delete_cycles env n s)
      in DeletePath pathID s')"

definition error_env :: externals where
  "error_env = test_env\<lparr>GetPathResult := \<lambda>cs t md sp d p n ow sy. (Error, p)\<rparr>"

definition test_req :: pm_op where
  "test_req = OpRequestPath test_md (pos 0 0) (pos 0 0) (test_def (pos 0 0) (pos 0 0)) None True"

text \<open>Engines that find the goal out of range on the coarse tier and cannot get closer on
  the finer ones.\<close>

definition out_of_range_env :: externals where
  "out_of_range_env = test_env\<lparr>GetPathResult := \<lambda>cs t md sp d p n ow sy.
      if t = LowRes then (GoalOutOfRange, p\<lparr>path := [defGoal d], squares := [(99, 0)]\<rparr>)
      else (CantGetCloser, p\<lparr>path := [], squares := []\<rparr>)\<rparr>"

text \<open>The heat that a log deposits, and a stored path of two squares.\<close>

fun heat_deposited :: "extcall list \<Rightarrow> int" where
  "heat_deposited [] = 0"
| "heat_deposited (CallUpdateHeatValue px py v ownr # cs) = v + heat_deposited cs"
| "heat_deposited (c # cs) = heat_deposited cs"

definition heat_state :: pm_state where
  "heat_state = init_state\<lparr>pathMap :=
     [1 \<mapsto> (newMultiPath (pos 0 0) (test_def (pos 0 0) (pos 8 0)) test_md)
        \<lparr>maxResPath := \<lparr>path = [pos 8 0, pos 0 0], squares = [(1, 0), (0, 0)],
                         pathGoal = pos 8 0\<rparr>\<rparr>],
     nextPathID := 1\<rparr>"

text \<open>A stored path with waypoints left on every tier, requested by \<open>test_unit\<close>.\<close>

definition is_GetPath :: "tier \<Rightarrow> extcall \<Rightarrow> bool" where
  "is_GetPath t c = (case c of CallGetPath t' md sp d n ow sy \<Rightarrow> t' = t | _ \<Rightarrow> False)"

definition is_search :: "extcall \<Rightarrow> bool" where
  "is_search c = (case c of CallGetPath t md sp d n ow sy \<Rightarrow> True | _ \<Rightarrow> False)"

definition refine_mp :: MultiPath where
  "refine_mp = (newMultiPath (pos 0 0) (test_def (pos 0 0) (pos 792 0)) test_md)
     \<lparr>maxResPath := \<lparr>path = [pos 8 0], squares = [(1, 0)], pathGoal = pos 8 0\<rparr>,
      medResPath := \<lparr>path = [pos 640 0, pos 64 0], squares = [(80, 0), (8, 0)], pathGoal = pos 640 0\<rparr>,
      lowResPath := \<lparr>path = [pos 792 0, pos 256 0], squares = [(99, 0), (32, 0)], pathGoal = pos 792 0\<rparr>,
      searchResult := Ok, finalGoal := pos 792 0, caller := Some test_unit\<rparr>"

definition refine_state :: pm_state where
  "refine_state = init_state\<lparr>pathMap := [1 \<mapsto> refine_mp], nextPathID := 1\<rparr>"

text \<open>A stored path of an entity far from the origin: three waypoints are left on the fine
  tier, the next one at \<open>(80, 0)\<close>, and the next waypoint of the medium tier is 80 away
  from it.\<close>

definition far_mp :: MultiPath where
  "far_mp = (newMultiPath (pos 64 0) (test_def (pos 64 0) (pos 400 0)) test_md)
     \<lparr>maxResPath := \<lparr>path = [pos 96 0, pos 88 0, pos 80 0], squares = [(12, 0), (11, 0), (10, 0)],
                      pathGoal = pos 96 0\<rparr>,
      medResPath := \<lparr>path = [pos 400 0, pos 160 0], squares = [(50, 0), (20, 0)],
                      pathGoal = pos 400 0\<rparr>,
      searchResult := Ok, finalGoal := pos 400 0\<rparr>"

definition far_state :: pm_state where
  "far_state = init_state\<lparr>pathMap := [1 \<mapsto> far_mp], nextPathID := 1\<rparr>"


section \<open>Properties\<close>

subsection \<open>Auxiliary facts\<close>

lemma RequestPath_result_cases:
  assumes "RequestPath_result env md sp gp pfDef cal synced s = (result, pathID, s')"
  shows "(result = Error \<longrightarrow> pathID = 0 \<and> pathMap s' = pathMap s \<and> nextPathID s' = nextPathID s)
    \<and> (result \<noteq> Error \<longrightarrow> pathID = nextPathID s + 1 \<and> nextPathID s' = pathID
          \<and> (\<exists>mp. pathMap s' = (pathMap s)(pathID \<mapsto> mp) \<and> searchResult mp = result))"
  using assms
  by (auto simp: RequestPath_result_def Let_def Store_def split: prod.splits if_splits)

lemma word_succ_le:
  "(x::32 word) \<noteq> - 1 \<Longrightarrow> k \<le> x \<Longrightarrow> k \<le> x + 1 \<and> k \<noteq> x + 1 \<and> x + 1 \<noteq> 0"
proof -
  assume a: "x \<noteq> - 1" "k \<le> x"
  have z: "x + 1 \<noteq> 0" using a(1) max_word_wrap [of x] by blast
  then have "unat (1 + x) = Suc (unat x)" by (simp add: unatSuc add.commute)
  then have "unat (x + 1) = Suc (unat x)" by (simp add: add.commute)
  with a(2) z show ?thesis by (auto simp: word_le_nat_alt)
qed

lemma NextWayPoint_exit:
  "pathID = 0 \<or> numRetries > 4 \<or> GetMultiPath s pathID = None \<Longrightarrow>
     NextWayPoint env pathID callerPos minDistance numRetries ownr synced s = (noPathPoint, s)"
  by (subst NextWayPoint.simps) auto

lemma NextWayPoint_unfold:
  assumes "pathID \<noteq> 0" "\<not> numRetries > 4" "GetMultiPath s pathID = Some multiPath"
  shows "NextWayPoint env pathID callerPos minDistance numRetries ownr synced s =
     (let cp = NextWayPoint_callerPos env multiPath callerPos;
          st1 = NextWayPoint_refine env cp ownr synced (multiPath, calls s);
          lp = NextWayPoint_loop env cp minDistance (fst st1);
          s' = (s\<lparr>calls := snd st1\<rparr>)\<lparr>pathMap := (pathMap s)(pathID \<mapsto> snd lp)\<rparr>
      in case fst lp of
           Some waypoint \<Rightarrow> (waypoint\<lparr>fy := 0\<rparr>, s')
         | None \<Rightarrow> ((fst (NextWayPoint env pathID cp minDistance (numRetries + 1) ownr synced s'))\<lparr>fy := 0\<rparr>,
                 snd (NextWayPoint env pathID cp minDistance (numRetries + 1) ownr synced s')))"
  using assms
  by (subst NextWayPoint.simps)
     (auto simp: Let_def split: option.splits)

lemma NextWayPoint_loop_eq:
  "NextWayPoint_loop env c d mp =
     (case dropWhile (\<lambda>w. SqDistance2D c w < Square d
                           \<and> \<not> float3_eq env w (pathGoal (maxResPath mp)))
             (rev (path (maxResPath mp))) of
        w # rest \<Rightarrow> (Some w, mp\<lparr>maxResPath := (maxResPath mp)\<lparr>path := rev rest\<rparr>\<rparr>)
      | [] \<Rightarrow>
          (if path (lowResPath mp) = [] \<and> path (medResPath mp) = []
           then (if searchResult mp = Ok then Some (finalGoal mp) else Some noPathPoint)
           else None,
           mp\<lparr>maxResPath := (maxResPath mp)\<lparr>path := []\<rparr>\<rparr>))"
proof (induction "path (maxResPath mp)" arbitrary: mp rule: rev_induct)
  case Nil
  then have e: "path (maxResPath mp) = []" by simp
  then have "mp\<lparr>maxResPath := (maxResPath mp)\<lparr>path := []\<rparr>\<rparr> = mp" by simp
  then show ?case using e by (subst NextWayPoint_loop.simps) simp
next
  case (snoc w xs)
  define P where "P = (\<lambda>w. SqDistance2D c w < Square d
                           \<and> \<not> float3_eq env w (pathGoal (maxResPath mp)))"
  let ?mp = "mp\<lparr>maxResPath := (maxResPath mp)\<lparr>path := xs\<rparr>\<rparr>"
  have e: "path (maxResPath mp) = xs @ [w]" using snoc(2) by simp
  have x: "xs = path (maxResPath ?mp)" by simp
  have step: "NextWayPoint_loop env c d mp
      = (if P w then NextWayPoint_loop env c d ?mp else (Some w, ?mp))"
    by (subst NextWayPoint_loop.simps) (simp add: e Let_def P_def)
  have ih: "NextWayPoint_loop env c d ?mp =
     (case dropWhile P (rev xs) of
        w # rest \<Rightarrow> (Some w, mp\<lparr>maxResPath := (maxResPath mp)\<lparr>path := rev rest\<rparr>\<rparr>)
      | [] \<Rightarrow>
          (if path (lowResPath mp) = [] \<and> path (medResPath mp) = []
           then (if searchResult mp = Ok then Some (finalGoal mp) else Some noPathPoint)
           else None,
           mp\<lparr>maxResPath := (maxResPath mp)\<lparr>path := []\<rparr>\<rparr>))"
  proof (cases "dropWhile P (rev xs)")
    case Nil
    then show ?thesis using snoc(1) [OF x]
      by (simp add: P_def del: dropWhile_eq_Nil_conv)
  next
    case (Cons v vs)
    then show ?thesis using snoc(1) [OF x]
      by (simp add: P_def del: dropWhile_eq_Nil_conv)
  qed
  show ?case
  proof (cases "P w")
    case True
    then have "dropWhile P (rev (xs @ [w])) = dropWhile P (rev xs)" by simp
    then show ?thesis unfolding e P_def [symmetric] using True step ih by simp
  next
    case False
    then have "dropWhile P (rev (xs @ [w])) = w # rev xs" by simp
    then show ?thesis unfolding e P_def [symmetric] using False step by simp
  qed
qed

lemma NextWayPoint_frame_aux:
  "nat (5 - numRetries) = n \<Longrightarrow>
   nextPathID (snd (NextWayPoint env pathID callerPos minDistance numRetries ownr synced s)) = nextPathID s
   \<and> dom (pathMap (snd (NextWayPoint env pathID callerPos minDistance numRetries ownr synced s)))
       = dom (pathMap s)"
proof (induction n arbitrary: numRetries callerPos s)
  case 0
  then have "numRetries > 4" by simp
  then show ?case by (simp add: NextWayPoint_exit)
next
  case (Suc n)
  show ?case
  proof (cases "pathID = 0 \<or> numRetries > 4 \<or> GetMultiPath s pathID = None")
    case True
    then show ?thesis by (simp add: NextWayPoint_exit)
  next
    case False
    then obtain multiPath where mp: "pathID \<noteq> 0" "\<not> numRetries > 4" "GetMultiPath s pathID = Some multiPath"
      by auto
    have n: "nat (5 - (numRetries + 1)) = n" using Suc.prems by simp
    define cp where "cp = NextWayPoint_callerPos env multiPath callerPos"
    define st1 where "st1 = NextWayPoint_refine env cp ownr synced (multiPath, calls s)"
    define lp where "lp = NextWayPoint_loop env cp minDistance (fst st1)"
    define s' where "s' = (s\<lparr>calls := snd st1\<rparr>)\<lparr>pathMap := (pathMap s)(pathID \<mapsto> snd lp)\<rparr>"
    have s': "nextPathID s' = nextPathID s" "dom (pathMap s') = dom (pathMap s)"
      using mp(3) by (auto simp: s'_def GetMultiPath_def)
    have eq: "snd (NextWayPoint env pathID callerPos minDistance numRetries ownr synced s) =
       (case fst lp of Some waypoint \<Rightarrow> s'
        | None \<Rightarrow> snd (NextWayPoint env pathID cp minDistance (numRetries + 1) ownr synced s'))"
      unfolding NextWayPoint_unfold [OF mp] Let_def cp_def st1_def lp_def s'_def
      by (simp split: option.splits)
    show ?thesis
      unfolding eq using s' Suc.IH [OF n, of cp s'] by (simp split: option.splits)
  qed
qed

lemma NextWayPoint_frame:
  "nextPathID (snd (NextWayPoint env pathID callerPos minDistance numRetries ownr synced s)) = nextPathID s"
  "dom (pathMap (snd (NextWayPoint env pathID callerPos minDistance numRetries ownr synced s)))
       = dom (pathMap s)"
  using NextWayPoint_frame_aux [OF refl] by blast+

lemma DeletePath_frame:
  "nextPathID (DeletePath pathID s) = nextPathID s"
  "dom (pathMap (DeletePath pathID s)) = dom (pathMap s) - {pathID} \<or> (pathID = 0 \<and> DeletePath pathID s = s)"
  by (auto simp: DeletePath_def split: option.splits)

lemma UpdatePath_frame:
  "nextPathID (UpdatePath ownr pathID s) = nextPathID s"
  "pathMap (UpdatePath ownr pathID s) = pathMap s"
  by (simp_all add: UpdatePath_def Let_def)

lemma issued_handles_closed:
  "issued_handles env ops s =
     map (\<lambda>k. nextPathID s + of_nat k) [1..<Suc (length (issued_handles env ops s))]"
proof (induction ops arbitrary: s)
  case Nil
  show ?case by simp
next
  case (Cons a ops)
  show ?case
  proof (cases a)
    case (OpRequestPath md sp gp pfDef cal synced)
    obtain result pathID s' where r: "RequestPath_result env md sp gp pfDef cal synced s = (result, pathID, s')"
      by (metis prod_cases3)
    note c = RequestPath_result_cases [OF r]
    show ?thesis
    proof (cases "result = Error")
      case True
      with c have "nextPathID s' = nextPathID s" by simp
      with Cons.IH [of s'] show ?thesis by (simp add: OpRequestPath r True)
    next
      case False
      with c have s': "nextPathID s' = nextPathID s + 1" "pathID = nextPathID s + 1" by simp_all
      let ?n = "length (issued_handles env ops s')"
      have "issued_handles env (a # ops) s = pathID # issued_handles env ops s'"
        by (simp add: OpRequestPath r False)
      also have "issued_handles env ops s' = map (\<lambda>k. nextPathID s' + of_nat k) [1..<Suc ?n]"
        by (rule Cons.IH)
      also have "\<dots> = map (\<lambda>k. nextPathID s + of_nat k) [2..<Suc (Suc ?n)]"
        unfolding s' by (simp add: map_Suc_upt [symmetric] del: upt_Suc add: add.assoc numeral_2_eq_2)
      finally have "issued_handles env (a # ops) s = map (\<lambda>k. nextPathID s + of_nat k) [1..<Suc (Suc ?n)]"
        using s'(2) by (simp add: upt_conv_Cons del: upt_Suc add: numeral_2_eq_2)
      moreover have "length (issued_handles env (a # ops) s) = Suc ?n"
        by (simp add: OpRequestPath r False)
      ultimately show ?thesis by simp
    qed
  next
    case (OpDeletePath pathID)
    with Cons.IH [of "DeletePath pathID s"] show ?thesis by (simp add: DeletePath_frame)
  next
    case (OpNextWayPoint pathID callerPos minDistance ownr synced)
    with Cons.IH [of "snd (NextWayPoint env pathID callerPos minDistance 0 ownr synced s)"]
    show ?thesis by (simp add: NextWayPoint_frame)
  next
    case (OpUpdatePath ownr pathID)
    with Cons.IH [of "UpdatePath ownr pathID s"] show ?thesis by (simp add: UpdatePath_frame)
  qed
qed

lemma issued_handles_nth:
  assumes "i < length (issued_handles env ops s)"
  shows "issued_handles env ops s ! i = nextPathID s + of_nat (Suc i)"
proof -
  have "issued_handles env ops s ! i
      = map (\<lambda>k. nextPathID s + of_nat k) [1..<Suc (length (issued_handles env ops s))] ! i"
    using issued_handles_closed [of env ops s] by simp
  also have "\<dots> = nextPathID s + of_nat (Suc i)"
    using assms by (simp del: upt_Suc)
  finally show ?thesis .
qed

lemma handles_distinct_nonzero:
  fixes x :: "32 word"
  assumes "unat x + n < 2 ^ 32"
  shows "distinct (map (\<lambda>k. x + of_nat k) [1..<Suc n]) \<and> 0 \<notin> set (map (\<lambda>k. x + of_nat k) [1..<Suc n])"
proof -
  have u: "unat (x + of_nat k) = unat x + k" if "k \<le> n" for k
  proof -
    have "k < 2 ^ 32" using assms that by simp
    then have "unat (of_nat k :: 32 word) = k" by (simp add: unat_of_nat)
    moreover have "unat x + k < 2 ^ LENGTH(32)" using assms that by simp
    ultimately show ?thesis using unat_add_lem [of x "of_nat k"] by simp
  qed
  have "inj_on (\<lambda>k. x + of_nat k) {1..<Suc n}"
  proof (rule inj_onI)
    fix a b assume "a \<in> {1..<Suc n}" "b \<in> {1..<Suc n}" "x + of_nat a = x + of_nat b"
    then have "unat (x + of_nat a) = unat (x + of_nat b)" "a \<le> n" "b \<le> n" by simp_all
    then show "a = b" by (simp add: u)
  qed
  then have "distinct (map (\<lambda>k. x + of_nat k) [1..<Suc n])"
    by (simp add: distinct_map del: upt_Suc)
  moreover have "x + of_nat k \<noteq> 0" if "1 \<le> k" "k \<le> n" for k
  proof
    assume "x + of_nat k = 0"
    then have "unat (x + of_nat k) = 0" by simp
    with u [OF that(2)] that(1) show False by simp
  qed
  then have "0 \<notin> set (map (\<lambda>k. x + of_nat k) [1..<Suc n])"
    by (auto simp del: upt_Suc)
  ultimately show ?thesis by simp
qed

lemma test_request_result:
  "fst (RequestPath_result test_env test_md (pos 0 0) (pos 0 0) (test_def (pos 0 0) (pos 0 0)) None True s) = CantGetCloser"
  by (simp add: RequestPath_result_def RequestPath_search_def search_short_def goalDist2D_def
    test_env_def test_md_def pos_def test_def_def newMultiPath_def RequestPath_newPath_def
    CRangedGoalWithCircularConstraint_def maxResPF_GetPath_def medResPE_GetPath_def lowResPE_GetPath_def
    UnBlock_def Block_def Store_def add_dummy_waypoint_def emptyPath_def Let_def)

lemma test_request:
  "\<exists>mp s'. RequestPath_result test_env test_md (pos 0 0) (pos 0 0) (test_def (pos 0 0) (pos 0 0))
              None True s = (CantGetCloser, nextPathID s + 1, s')
     \<and> nextPathID s' = nextPathID s + 1 \<and> pathMap s' = (pathMap s)(nextPathID s + 1 \<mapsto> mp)"
proof -
  obtain result pathID s' where
    r: "RequestPath_result test_env test_md (pos 0 0) (pos 0 0) (test_def (pos 0 0) (pos 0 0))
          None True s = (result, pathID, s')"
    by (metis prod_cases3)
  with test_request_result [of s] have "result = CantGetCloser" by simp
  with RequestPath_result_cases [OF r] r show ?thesis by auto
qed

lemma request_delete_cycles_state:
  "n < 2 ^ 32 \<Longrightarrow>
     nextPathID (request_delete_cycles test_env n init_state) = of_nat n
     \<and> pathMap (request_delete_cycles test_env n init_state) = Map.empty"
proof (induction n)
  case 0
  show ?case by (simp add: init_state_def)
next
  case (Suc n)
  let ?s = "request_delete_cycles test_env n init_state"
  from Suc have s: "nextPathID ?s = of_nat n" "pathMap ?s = Map.empty" by simp_all
  obtain mp s' where
    r: "RequestPath_result test_env test_md (pos 0 0) (pos 0 0) (test_def (pos 0 0) (pos 0 0))
          None True ?s = (CantGetCloser, nextPathID ?s + 1, s')"
    and s': "nextPathID s' = nextPathID ?s + 1" "pathMap s' = (pathMap ?s)(nextPathID ?s + 1 \<mapsto> mp)"
    using test_request [of ?s] by blast
  have "(of_nat (Suc n) :: 32 word) \<noteq> 0"
    using Suc.prems by (intro of_nat_neq_0) simp_all
  then have nz: "nextPathID ?s + 1 \<noteq> 0" by (simp add: s add.commute)
  have "request_delete_cycles test_env (Suc n) init_state = DeletePath (nextPathID ?s + 1) s'"
    by (simp add: RequestPath_def r)
  also have "\<dots> = s'\<lparr>pathMap := Map.empty\<rparr>"
    using nz s' s(2) by (simp add: DeletePath_def)
  finally show ?case using s' s(1) by simp
qed

lemma registry_inv_init: "registry_inv init_state"
  by (simp add: registry_inv_def init_state_def)

lemma registry_inv_DeletePath: "registry_inv s \<Longrightarrow> registry_inv (DeletePath pathID s)"
  by (auto simp: registry_inv_def DeletePath_def split: option.splits if_splits)

lemma registry_inv_NextWayPoint:
  assumes "registry_inv s"
  shows "registry_inv (snd (NextWayPoint env pathID callerPos minDistance numRetries ownr synced s))"
proof -
  have "pathMap t k \<noteq> None \<longleftrightarrow> k \<in> dom (pathMap t)" for t :: pm_state and k
    by auto
  then show ?thesis
    using assms NextWayPoint_frame [of env pathID callerPos minDistance numRetries ownr synced s]
    unfolding registry_inv_def by metis
qed

lemma error_request_result:
  "fst (RequestPath_result error_env test_md (pos 0 0) (pos 0 0) (test_def (pos 0 0) (pos 0 0))
          None True s) = Error"
  by (simp add: RequestPath_result_def RequestPath_search_def search_short_def goalDist2D_def
      error_env_def test_env_def test_md_def pos_def test_def_def newMultiPath_def RequestPath_newPath_def
      CRangedGoalWithCircularConstraint_def maxResPF_GetPath_def medResPE_GetPath_def
      lowResPE_GetPath_def UnBlock_def Block_def emptyPath_def Let_def)

lemma issued_handles_test_req:
  "length (issued_handles test_env (replicate n test_req) s) = n"
proof (induction n arbitrary: s)
  case 0
  show ?case by simp
next
  case (Suc n)
  obtain s' where
    r: "RequestPath_result test_env test_md (pos 0 0) (pos 0 0) (test_def (pos 0 0) (pos 0 0))
          None True s = (CantGetCloser, nextPathID s + 1, s')"
    using test_request [of s] by blast
  show ?case using Suc [of s'] by (simp add: test_req_def r)
qed

lemma test_search:
  "\<exists>cs. RequestPath_search test_env (moveDefs test_env (pathType test_md)) (pos 0 0) (pos 0 0) None True
     (RequestPath_newPath (pos 0 0) (pos 0 0) (test_def (pos 0 0) (pos 0 0))
        (moveDefs test_env (pathType test_md)) None, UnBlock None (calls init_state))
   = (CantGetCloser,
      RequestPath_newPath (pos 0 0) (pos 0 0) (test_def (pos 0 0) (pos 0 0))
        (moveDefs test_env (pathType test_md)) None, cs)"
  by (simp add: RequestPath_search_def search_short_def goalDist2D_def
      test_env_def test_md_def pos_def test_def_def newMultiPath_def RequestPath_newPath_def
      CRangedGoalWithCircularConstraint_def maxResPF_GetPath_def medResPE_GetPath_def
      lowResPE_GetPath_def UnBlock_def emptyPath_def Let_def)

lemma pow2_powr: "pow2 e = 2 powr (of_int e)"
proof (cases "0 \<le> e")
  case True
  then have "(of_int e :: real) = real (nat e)" by simp
  then have "2 powr (of_int e) = (2::real) ^ nat e"
    by (simp only: powr_realpow zero_less_numeral)
  with True show ?thesis by (simp add: pow2_def)
next
  case False
  then have "(of_int e :: real) = - real (nat (- e))" by simp
  then have "2 powr (of_int e) = 1 / (2::real) ^ nat (- e)"
    by (simp only: powr_minus_divide powr_realpow zero_less_numeral)
  with False show ?thesis by (simp add: pow2_def)
qed

lemma exp_up_bounds:
  "1 \<le> v \<Longrightarrow> 2 powr (of_int (exp_up v)) \<le> v \<and> v < 2 powr (of_int (exp_up v + 1))"
proof (induction v rule: exp_up.induct)
  case (1 v)
  show ?case
  proof (cases "2 \<le> v")
    case True
    then have "1 \<le> v / 2" by simp
    from 1(1) [OF True this]
    have "2 powr (of_int (exp_up (v / 2))) \<le> v / 2" "v / 2 < 2 powr (of_int (exp_up (v / 2) + 1))"
      by simp_all
    then have "2 powr (of_int (exp_up (v / 2)) + 1) \<le> v"
      "v < 2 powr (of_int (exp_up (v / 2) + 1) + 1)"
      by (simp_all add: powr_add)
    then show ?thesis using True by (subst (1 2) exp_up.simps) (simp add: add.commute)
  next
    case False
    then show ?thesis using 1(2) by (subst (1 2) exp_up.simps) simp
  qed
qed

lemma exp_down_bounds:
  "0 < v \<Longrightarrow> v < 1 \<Longrightarrow>
     2 powr (of_int (exp_down v)) \<le> v \<and> v < 2 powr (of_int (exp_down v + 1))"
proof (induction v rule: exp_down.induct)
  case (1 v)
  have c: "0 < v \<and> v < 1" using 1(2,3) by simp
  show ?case
  proof (cases "v * 2 < 1")
    case True
    from 1(1) [OF c _ True] c
    have "2 powr (of_int (exp_down (v * 2))) \<le> v * 2" "v * 2 < 2 powr (of_int (exp_down (v * 2) + 1))"
      by simp_all
    then have "2 powr (of_int (exp_down (v * 2)) - 1) \<le> v"
      "v < 2 powr (of_int (exp_down (v * 2) + 1) - 1)"
      by (simp_all add: powr_diff powr_add)
    then show ?thesis using c by (subst (1 2) exp_down.simps) simp
  next
    case False
    then have e: "exp_down (v * 2) = 0" by (subst exp_down.simps) simp
    have "2 powr (- 1) \<le> v" using False by (simp add: powr_minus_divide)
    then show ?thesis using c by (subst (1 2) exp_down.simps) (simp add: e)
  qed
qed

lemma binade_bounds:
  assumes "0 < v"
  shows "2 powr (of_int (binade v)) \<le> v" "v < 2 powr (of_int (binade v + 1))"
  using assms exp_up_bounds [of v] exp_down_bounds [of v]
  by (auto simp: binade_def)

lemma round_even_range: "\<lfloor>r\<rfloor> \<le> round_even r \<and> round_even r \<le> \<lfloor>r\<rfloor> + 1"
  by (simp add: round_even_def Let_def)

lemma round_even_of_int: "round_even (of_int n) = n"
  by (simp add: round_even_def Let_def)

lemma round_even_mono:
  assumes "a \<le> b"
  shows "round_even a \<le> round_even b"
proof (cases "\<lfloor>a\<rfloor> = \<lfloor>b\<rfloor>")
  case True
  have "a - of_int \<lfloor>a\<rfloor> \<le> b - of_int \<lfloor>a\<rfloor>" using assms by simp
  then show ?thesis unfolding round_even_def Let_def True [symmetric]
    by (auto simp: not_less)
next
  case False
  then have "\<lfloor>a\<rfloor> < \<lfloor>b\<rfloor>" using floor_mono [OF assms] by simp
  with round_even_range [of a] round_even_range [of b] show ?thesis by linarith
qed

lemma round_even_ge: "of_int n \<le> r \<Longrightarrow> n \<le> round_even r"
  using round_even_mono [of "of_int n" r] by (simp add: round_even_of_int)

lemma round_even_le: "r \<le> of_int n \<Longrightarrow> round_even r \<le> n"
  using round_even_mono [of r "of_int n"] by (simp add: round_even_of_int)

lemma f32_pos:
  assumes "0 < v"
  shows "f32 v = of_int (round_even (v / (2::real) powr (of_int (f32_exp v - 23)))) * (2::real) powr (of_int (f32_exp v - 23))"
  using assms by (simp add: f32_def Let_def pow2_powr)

lemma f32_pos_upper:
  assumes "0 < v"
  shows "f32 v \<le> (2::real) powr (of_int (f32_exp v + 1))"
proof -
  let ?q = "(2::real) powr (of_int (f32_exp v - 23))"
  have q: "0 < ?q" by simp
  have "binade v \<le> f32_exp v" using assms by (simp add: f32_exp_def)
  then have "(2::real) powr (of_int (binade v + 1)) \<le> (2::real) powr (of_int (f32_exp v + 1))"
    by (simp add: powr_mono)
  with binade_bounds(2) [OF assms] have "v \<le> (2::real) powr (of_int (f32_exp v + 1))" by linarith
  also have "(2::real) powr (of_int (f32_exp v + 1)) = (2::real) powr 24 * ?q"
    by (simp add: powr_diff powr_add)
  finally have "v / ?q \<le> (2::real) powr 24" using q by (simp add: field_simps)
  also have "(2::real) powr 24 = of_int 16777216" by simp
  finally have "round_even (v / ?q) \<le> 16777216" by (rule round_even_le)
  then have "of_int (round_even (v / ?q)) * ?q \<le> (16777216::real) * ?q"
    using q by (simp add: mult_right_mono)
  also have "(16777216::real) * ?q = (2::real) powr 24 * ?q" by simp
  also have "\<dots> = (2::real) powr (of_int (f32_exp v + 1))" by (simp add: powr_diff powr_add)
  finally show ?thesis using assms by (simp add: f32_pos)
qed

lemma f32_pos_lower:
  assumes "0 < v" "- 126 \<le> binade v"
  shows "(2::real) powr (of_int (f32_exp v)) \<le> f32 v"
proof -
  let ?q = "(2::real) powr (of_int (f32_exp v - 23))"
  have q: "0 < ?q" by simp
  have e: "f32_exp v = binade v" using assms by (simp add: f32_exp_def)
  have "(2::real) powr (of_int (f32_exp v)) = (2::real) powr 23 * ?q" by (simp add: powr_diff)
  with binade_bounds(1) [OF assms(1)] e have "(2::real) powr 23 * ?q \<le> v" by simp
  then have "(2::real) powr 23 \<le> v / ?q" using q by (simp add: field_simps)
  moreover have "(2::real) powr 23 = of_int 8388608" by simp
  ultimately have "of_int 8388608 \<le> v / ?q" by simp
  then have "8388608 \<le> round_even (v / ?q)" by (rule round_even_ge)
  then have r: "(8388608::real) \<le> of_int (round_even (v / ?q))" by linarith
  have "(8388608::real) * ?q \<le> of_int (round_even (v / ?q)) * ?q"
    by (rule mult_right_mono [OF r]) simp
  moreover have "(8388608::real) * ?q = (2::real) powr (of_int (f32_exp v))"
    by (simp add: powr_diff)
  ultimately show ?thesis unfolding f32_pos [OF assms(1)] by linarith
qed

lemma binade_mono:
  assumes "0 < a" "a \<le> b"
  shows "binade a \<le> binade b"
proof (rule ccontr)
  assume "\<not> binade a \<le> binade b"
  then have "binade b + 1 \<le> binade a" by simp
  then have "(2::real) powr (of_int (binade b + 1)) \<le> (2::real) powr (of_int (binade a))"
    by (simp add: powr_mono)
  with binade_bounds(1) [OF assms(1)] binade_bounds(2) [of b] assms show False by linarith
qed

lemma f32_nonneg: "0 \<le> v \<Longrightarrow> 0 \<le> f32 v"
proof (cases "v = 0")
  case True
  then show ?thesis by (simp add: f32_def)
next
  case False
  assume "0 \<le> v"
  with False have v: "0 < v" by simp
  have "0 \<le> v / (2::real) powr (of_int (f32_exp v - 23))" using v by simp
  then have "0 \<le> round_even (v / (2::real) powr (of_int (f32_exp v - 23)))"
    using round_even_ge [of 0] by simp
  then show ?thesis using v by (simp add: f32_pos)
qed

lemma f32_mono_pos:
  assumes "0 < a" "a \<le> b"
  shows "f32 a \<le> f32 b"
proof -
  have b: "0 < b" using assms by simp
  have le: "f32_exp a \<le> f32_exp b"
    using binade_mono [OF assms] assms by (simp add: f32_exp_def)
  show ?thesis
  proof (cases "f32_exp a = f32_exp b")
    case True
    let ?q = "(2::real) powr (of_int (f32_exp b - 23))"
    have "a / ?q \<le> b / ?q" using assms(2) by (simp add: divide_right_mono)
    then have "round_even (a / ?q) \<le> round_even (b / ?q)" by (rule round_even_mono)
    then have "of_int (round_even (a / ?q)) * ?q \<le> of_int (round_even (b / ?q)) * ?q"
      by (simp add: mult_right_mono)
    then show ?thesis using assms(1) b True by (simp add: f32_pos)
  next
    case False
    with le have lt: "f32_exp a + 1 \<le> f32_exp b" by simp
    have "- 126 \<le> f32_exp a" by (simp add: f32_exp_def)
    with lt have "- 126 < f32_exp b" by simp
    then have nb: "- 126 \<le> binade b" using b by (auto simp: f32_exp_def max_def split: if_splits)
    have "f32 a \<le> (2::real) powr (of_int (f32_exp a + 1))" by (rule f32_pos_upper [OF assms(1)])
    also have "\<dots> \<le> (2::real) powr (of_int (f32_exp b))" using lt by (simp add: powr_mono)
    also have "\<dots> \<le> f32 b" by (rule f32_pos_lower [OF b nb])
    finally show ?thesis .
  qed
qed

lemma f32_mono_nonneg:
  assumes "0 \<le> a" "a \<le> b"
  shows "f32 a \<le> f32 b"
proof (cases "a = 0")
  case True
  then show ?thesis using assms f32_nonneg [of b] by (simp add: f32_def)
next
  case False
  with assms have "0 < a" by simp
  then show ?thesis using assms(2) by (rule f32_mono_pos)
qed

lemma round_even_error: "\<bar>of_int (round_even r) - r\<bar> \<le> 1 / 2"
proof -
  have "of_int \<lfloor>r\<rfloor> \<le> r" "r < of_int \<lfloor>r\<rfloor> + 1" by linarith+
  then show ?thesis by (auto simp: round_even_def Let_def abs_le_iff)
qed

lemma f32_error:
  assumes "1 / 2 ^ 126 \<le> v"
  shows "\<bar>f32 v - v\<bar> \<le> v / 2 ^ 24"
proof -
  have v: "0 < v" using assms by (rule less_le_trans [rotated]) simp
  have "(2::real) powr (- 126) = 1 / 2 ^ 126"
    by (simp add: powr_minus_divide)
  with assms have "(2::real) powr (- 126) \<le> v" by simp
  with binade_bounds(2) [OF v] have "(2::real) powr (- 126) < 2 powr (of_int (binade v + 1))"
    by linarith
  then have "- 126 < binade v + 1" by simp
  then have e: "f32_exp v = binade v" using v by (simp add: f32_exp_def)
  let ?q = "(2::real) powr (of_int (f32_exp v - 23))"
  have q: "0 < ?q" by simp
  have "f32 v - v = (of_int (round_even (v / ?q)) - v / ?q) * ?q"
    using q by (simp add: f32_pos [OF v] left_diff_distrib)
  then have "\<bar>f32 v - v\<bar> = \<bar>of_int (round_even (v / ?q)) - v / ?q\<bar> * ?q"
    using q by (simp add: abs_mult)
  also have "\<dots> \<le> (1 / 2) * ?q"
    using round_even_error [of "v / ?q"] q by (intro mult_right_mono) simp_all
  also have "(1 / 2) * ?q = (2::real) powr (of_int (binade v)) / 2 ^ 24"
    by (simp add: e powr_diff)
  also have "\<dots> \<le> v / 2 ^ 24"
    using binade_bounds(1) [OF v] by (simp add: divide_right_mono)
  finally show ?thesis .
qed

lemma f32_rel:
  assumes "1 / 2 ^ 126 \<le> v"
  shows "v * (16777215 / 16777216) \<le> f32 v" "f32 v \<le> v * (16777217 / 16777216)"
proof -
  from f32_error [OF assms] have "\<bar>f32 v - v\<bar> \<le> v / 16777216" by simp
  then show "v * (16777215 / 16777216) \<le> f32 v" "f32 v \<le> v * (16777217 / 16777216)"
    by linarith+
qed

lemma f32_of_nat:
  assumes "n < 2 ^ 24"
  shows "f32 (real n) = real n"
proof (cases "n = 0")
  case True
  then show ?thesis by (simp add: f32_def)
next
  case False
  let ?v = "real n"
  have v: "0 < ?v" "1 \<le> ?v" "?v < 2 ^ 24" using False assms by simp_all
  have lo: "0 \<le> binade ?v"
  proof (rule ccontr)
    assume "\<not> 0 \<le> binade ?v"
    then have "of_int (binade ?v + 1) \<le> (0::real)" by simp
    then have "(2::real) powr (of_int (binade ?v + 1)) \<le> 2 powr 0" by (intro powr_mono) simp_all
    with binade_bounds(2) [OF v(1)] v(2) show False by simp
  qed
  have hi: "binade ?v \<le> 23"
  proof (rule ccontr)
    assume "\<not> binade ?v \<le> 23"
    then have "(24::real) \<le> of_int (binade ?v)" by simp
    then have "(2::real) powr 24 \<le> 2 powr (of_int (binade ?v))" by (intro powr_mono) simp_all
    with binade_bounds(1) [OF v(1)] v(3) show False by simp
  qed
  have e: "f32_exp ?v = binade ?v" using lo by (simp add: f32_exp_def)
  define k where "k = nat (23 - binade ?v)"
  have "pow2 (binade ?v - 23) = 1 / 2 ^ k"
    using hi by (simp add: pow2_def k_def)
  then have q: "(2::real) powr (of_int (f32_exp ?v - 23)) = 1 / 2 ^ k"
    by (simp only: e pow2_powr)
  have "?v / (1 / 2 ^ k) = of_int (int n * 2 ^ k)" by simp
  then have "round_even (?v / (1 / 2 ^ k)) = int n * 2 ^ k"
    by (simp only: round_even_of_int)
  then show ?thesis unfolding f32_pos [OF v(1)] q by simp
qed

lemma heat_amount_error:
  assumes "0 < i" "i \<le> N" "N < 2 ^ 24" "1 \<le> H"
  shows "real i / real N * H * (1 - 1 / 2 ^ 21) - 1
           < of_int (float2int (f32 (f32 (f32 (real i) * f32 (1 / f32 (real N))) * f32 H)))"
    "of_int (float2int (f32 (f32 (f32 (real i) * f32 (1 / f32 (real N))) * f32 H)))
           \<le> real i / real N * H * (1 + 1 / 2 ^ 21)"
proof -
  define L :: real where "L = 16777215 / 16777216"
  define U :: real where "U = 16777217 / 16777216"
  define y where "y = real i / real N"
  have L: "0 < L" "1 - 1 / 2 ^ 21 \<le> L * L * L * L" "1 / 2 ^ 126 \<le> 1 / 2 ^ 24 * L"
    "1 / 2 ^ 126 \<le> 1 / 2 ^ 24 * L * L * L"
    by (simp_all add: L_def)
  have U: "0 < U" "U * U * U * U \<le> 1 + 1 / 2 ^ 21" by (simp_all add: U_def)
  note rel = f32_rel [folded L_def U_def]
  have N: "0 < N" "i < 2 ^ 24" using assms by simp_all
  have fN: "f32 (real N) = real N" using assms(3) by (rule f32_of_nat)
  have fi: "f32 (real i) = real i" using N(2) by (rule f32_of_nat)
  have y: "1 / 2 ^ 24 \<le> y" "0 < y"
  proof -
    have "real N \<le> 2 ^ 24 * real i"
    proof -
      have "real N \<le> 2 ^ 24" using assms(3) by simp
      also have "\<dots> \<le> 2 ^ 24 * real i" using assms(1) by simp
      finally show ?thesis .
    qed
    then show "1 / 2 ^ 24 \<le> y" using N(1) by (simp add: y_def field_simps)
    show "0 < y" using assms(1) N(1) by (simp add: y_def)
  qed
  define s where "s = f32 (1 / real N)"
  have "1 / 2 ^ 126 \<le> 1 / real N"
  proof -
    have "real N \<le> 2 ^ 126"
    proof -
      have "real N \<le> 2 ^ 24" using assms(3) by simp
      also have "\<dots> \<le> (2::real) ^ 126" by simp
      finally show ?thesis .
    qed
    then show ?thesis using N(1) by (simp add: field_simps)
  qed
  from rel [OF this] have s: "1 / real N * L \<le> s" "s \<le> 1 / real N * U" by (simp_all add: s_def)
  define t where "t = real i * s"
  have t: "y * L \<le> t" "t \<le> y * U"
  proof -
    have "real i * (1 / real N * L) \<le> real i * s" using s(1) by (intro mult_left_mono) simp_all
    then show "y * L \<le> t" by (simp add: y_def t_def)
    have "real i * s \<le> real i * (1 / real N * U)" using s(2) by (intro mult_left_mono) simp_all
    then show "t \<le> y * U" by (simp add: y_def t_def)
  qed
  have "1 / 2 ^ 24 * L \<le> y * L" using y(1) L(1) by (intro mult_right_mono) simp_all
  with L(3) t(1) have tn: "1 / 2 ^ 126 \<le> t" by linarith
  define p where "p = f32 t"
  from rel [OF tn] have p0: "t * L \<le> p" "p \<le> t * U" by (simp_all add: p_def)
  have p: "y * L * L \<le> p" "p \<le> y * U * U"
  proof -
    have "y * L * L \<le> t * L" using t(1) L(1) by (intro mult_right_mono) simp_all
    with p0(1) show "y * L * L \<le> p" by linarith
    have "t * U \<le> y * U * U" using t(2) U(1) by (intro mult_right_mono) simp_all
    with p0(2) show "p \<le> y * U * U" by linarith
  qed
  define h where "h = f32 H"
  have "1 / 2 ^ 126 \<le> H" using assms(4) by (rule order_trans [rotated]) simp
  from rel [OF this] have h: "H * L \<le> h" "h \<le> H * U" by (simp_all add: h_def)
  define w where "w = p * h"
  have yLL: "0 \<le> y * L * L" using y(2) L(1) by simp
  have HL: "0 \<le> H * L" using assms(4) L(1) by simp
  have p_nn: "0 \<le> p" using yLL p(1) by linarith
  have h_nn: "0 \<le> h" using HL h(1) by linarith
  have w: "y * L * L * (H * L) \<le> w" "w \<le> y * U * U * (H * U)"
  proof -
    show "y * L * L * (H * L) \<le> w" unfolding w_def
      using p(1) h(1) p_nn HL by (rule mult_mono)
    have "0 \<le> y * U * U" using y(2) U(1) by simp
    with p(2) h(2) show "w \<le> y * U * U * (H * U)" unfolding w_def
      using h_nn by (intro mult_mono) simp_all
  qed
  have "1 / 2 ^ 24 * L * L * L \<le> y * L * L * (H * L)"
  proof -
    have "1 / 2 ^ 24 * (L * L * L) \<le> y * (L * L * L)"
      using y(1) L(1) by (intro mult_right_mono) simp_all
    also have "\<dots> = (y * L * L * L) * 1" by simp
    also have "\<dots> \<le> (y * L * L * L) * H"
      using assms(4) y(2) L(1) by (intro mult_left_mono) simp_all
    finally show ?thesis by (simp add: mult_ac)
  qed
  with L(4) w(1) have wn: "1 / 2 ^ 126 \<le> w" by linarith
  define a where "a = f32 w"
  from rel [OF wn] have a0: "w * L \<le> a" "a \<le> w * U" by (simp_all add: a_def)
  have x: "0 \<le> y * H" using y(2) assms(4) by simp
  have a: "y * H * (1 - 1 / 2 ^ 21) \<le> a" "a \<le> y * H * (1 + 1 / 2 ^ 21)"
  proof -
    have "y * H * (1 - 1 / 2 ^ 21) \<le> y * H * (L * L * L * L)"
      using L(2) x by (rule mult_left_mono)
    also have "\<dots> = y * L * L * (H * L) * L" by (simp add: mult_ac)
    also have "\<dots> \<le> w * L" using w(1) L(1) by (intro mult_right_mono) simp_all
    finally show "y * H * (1 - 1 / 2 ^ 21) \<le> a" using a0(1) by linarith
    have "a \<le> w * U" by (rule a0(2))
    also have "\<dots> \<le> y * U * U * (H * U) * U" using w(2) U(1) by (intro mult_right_mono) simp_all
    also have "\<dots> = y * H * (U * U * U * U)" by (simp add: mult_ac)
    also have "\<dots> \<le> y * H * (1 + 1 / 2 ^ 21)" using U(2) x by (rule mult_left_mono)
    finally show "a \<le> y * H * (1 + 1 / 2 ^ 21)" .
  qed
  have "0 \<le> y * H * (1 - 1 / 2 ^ 21)" using x by simp
  with a(1) have a_nn: "0 \<le> a" by linarith
  have d: "float2int a = \<lfloor>a\<rfloor>" using a_nn by (simp add: float2int_def)
  have e: "f32 (f32 (f32 (real i) * f32 (1 / f32 (real N))) * f32 H) = a"
    by (simp add: a_def w_def p_def h_def t_def s_def fN fi)
  have "a - 1 < of_int \<lfloor>a\<rfloor>" "of_int \<lfloor>a\<rfloor> \<le> a" by linarith+
  with a show
    "real i / real N * H * (1 - 1 / 2 ^ 21) - 1
           < of_int (float2int (f32 (f32 (f32 (real i) * f32 (1 / f32 (real N))) * f32 H)))"
    "of_int (float2int (f32 (f32 (f32 (real i) * f32 (1 / f32 (real N))) * f32 H)))
           \<le> real i / real N * H * (1 + 1 / 2 ^ 21)"
    unfolding e d y_def [symmetric] by linarith+
qed

lemma sum_taper: "(\<Sum>k<n. real (n - k)) = real n * (real n + 1) / 2"
proof -
  have "(\<Sum>k<n. real (n - k)) = (\<Sum>k<n. real (Suc (n - Suc k)))"
    by (rule sum.cong) auto
  also have "\<dots> = (\<Sum>k<n. real (Suc k))"
    by (rule sum.nat_diff_reindex)
  also have "\<dots> = real n * (real n + 1) / 2"
    by (induction n) (simp_all add: field_simps)
  finally show ?thesis .
qed

lemma sum_taper_scaled:
  assumes "0 < N"
  shows "(\<Sum>k<N. real (N - k) / real N * H * c) = H * (real N + 1) / 2 * c"
proof -
  have "(\<Sum>k<N. real (N - k) / real N * H * c) = (\<Sum>k<N. real (N - k) * (H * c / real N))"
    by (rule sum.cong) simp_all
  also have "\<dots> = (\<Sum>k<N. real (N - k)) * (H * c / real N)"
    by (simp only: sum_distrib_right)
  also have "\<dots> = real N * (real N + 1) / 2 * (H * c / real N)"
    by (simp only: sum_taper)
  also have "\<dots> = H * (real N + 1) / 2 * c"
    using assms by simp
  finally show ?thesis .
qed

lemma heat_deposited_append:
  "heat_deposited (xs @ ys) = heat_deposited xs + heat_deposited ys"
  by (induction xs rule: heat_deposited.induct) simp_all

lemma heat_deposited_map:
  "heat_deposited (map (\<lambda>k. CallUpdateHeatValue (px k) (py k) (v k) ownr) [0..<n]) = (\<Sum>k<n. v k)"
  by (induction n) (simp_all add: heat_deposited_append)

lemma UpdatePath_loop_eq:
  "UpdatePath_loop scale ownr ps i cs =
     cs @ map (\<lambda>k. CallUpdateHeatValue (fst (ps ! k)) (snd (ps ! k))
                    (float2int (f32 (f32 (f32 (real (i - k)) * scale)
                                       * f32 (heatProduced (objMoveDef ownr))))) ownr)
            [0..<length ps]"
proof (induction ps arbitrary: i cs)
  case Nil
  show ?case by simp
next
  case (Cons p ps)
  have "map (\<lambda>k. CallUpdateHeatValue (fst ((p # ps) ! k)) (snd ((p # ps) ! k))
                    (float2int (f32 (f32 (f32 (real (i - k)) * scale)
                                       * f32 (heatProduced (objMoveDef ownr))))) ownr)
            [0..<length (p # ps)]
      = CallUpdateHeatValue (fst p) (snd p)
          (float2int (f32 (f32 (f32 (real i) * scale) * f32 (heatProduced (objMoveDef ownr))))) ownr
        # map (\<lambda>k. CallUpdateHeatValue (fst (ps ! k)) (snd (ps ! k))
                    (float2int (f32 (f32 (f32 (real (i - 1 - k)) * scale)
                                       * f32 (heatProduced (objMoveDef ownr))))) ownr)
            [0..<length ps]"
    by (simp add: upt_conv_Cons map_Suc_upt [symmetric] del: upt_Suc)
  then show ?case by (simp add: Cons.IH SetHeatOnSquare_def del: upt_Suc)
qed

lemma heat_amount_mono:
  assumes "0 \<le> scale" "0 \<le> h" "i \<le> j"
  shows "0 \<le> float2int (f32 (f32 (f32 (real i) * scale) * f32 h))"
    "float2int (f32 (f32 (f32 (real i) * scale) * f32 h))
       \<le> float2int (f32 (f32 (f32 (real j) * scale) * f32 h))"
proof -
  have h: "0 \<le> f32 h" using assms(2) by (rule f32_nonneg)
  have i: "0 \<le> f32 (real i)" by (rule f32_nonneg) simp
  have ij: "f32 (real i) \<le> f32 (real j)" using assms(3) by (intro f32_mono_nonneg) simp_all
  have p: "0 \<le> f32 (real i) * scale" using i assms(1) by simp
  have pq: "f32 (real i) * scale \<le> f32 (real j) * scale"
    using ij assms(1) by (rule mult_right_mono)
  have fp: "0 \<le> f32 (f32 (real i) * scale)" using p by (rule f32_nonneg)
  have fpq: "f32 (f32 (real i) * scale) \<le> f32 (f32 (real j) * scale)"
    using p pq by (rule f32_mono_nonneg)
  have a: "0 \<le> f32 (f32 (real i) * scale) * f32 h" using fp h by simp
  have ab: "f32 (f32 (real i) * scale) * f32 h \<le> f32 (f32 (real j) * scale) * f32 h"
    using fpq h by (rule mult_right_mono)
  have fa: "0 \<le> f32 (f32 (f32 (real i) * scale) * f32 h)" using a by (rule f32_nonneg)
  have fab: "f32 (f32 (f32 (real i) * scale) * f32 h) \<le> f32 (f32 (f32 (real j) * scale) * f32 h)"
    using a ab by (rule f32_mono_nonneg)
  from fa show "0 \<le> float2int (f32 (f32 (f32 (real i) * scale) * f32 h))"
    by (simp add: float2int_def)
  from fa fab have "0 \<le> f32 (f32 (f32 (real j) * scale) * f32 h)" by linarith
  with fa fab show "float2int (f32 (f32 (f32 (real i) * scale) * f32 h))
       \<le> float2int (f32 (f32 (f32 (real j) * scale) * f32 h))"
    by (simp add: float2int_def floor_mono)
qed

lemmas f32_eval = f32_def f32_exp_def binade_def exp_up.simps exp_down.simps pow2_def
  round_even_def float2int_def Let_def

lemma LowRes2MedRes_calls:
  "\<exists>low. snd (LowRes2MedRes env sp ownr synced (mp, cs)) = cs @ low
     \<and> list_all (is_GetPath MedRes) low \<and> length low \<le> 1
     \<and> (low = [] \<longleftrightarrow> path (lowResPath mp) = [])"
  by (simp add: LowRes2MedRes_def Let_def medResPE_GetPath_def case_prod_beta is_GetPath_def)

lemma LowRes2MedRes_caller:
  "caller (fst (LowRes2MedRes env sp ownr synced (mp, cs))) = caller mp"
  by (simp add: LowRes2MedRes_def Let_def medResPE_GetPath_def case_prod_beta)

lemma MedRes2MaxRes_calls:
  "\<exists>fine. snd (MedRes2MaxRes env sp ownr synced (mp, cs)) = cs @ fine
     \<and> list_all (is_GetPath MaxRes) fine \<and> length fine \<le> 1
     \<and> (fine = [] \<longleftrightarrow> path (medResPath mp) = [])"
  by (simp add: MedRes2MaxRes_def Let_def maxResPF_GetPath_def case_prod_beta is_GetPath_def)

lemma MedRes2MaxRes_caller:
  "caller (fst (MedRes2MaxRes env sp ownr synced (mp, cs))) = caller mp"
  by (simp add: MedRes2MaxRes_def Let_def maxResPF_GetPath_def case_prod_beta)

lemma Block_append: "Block c cs = cs @ Block c []" "UnBlock c cs = cs @ UnBlock c []"
  by (simp_all add: Block_def UnBlock_def split: option.splits)

lemma RequestPath_search_calls:
  "\<exists>xs. snd (snd (RequestPath_search env md sp gp cal sy st)) = snd st @ xs \<and> list_all is_search xs"
  by (simp add: RequestPath_search_def search_short_def search_medium_def search_long_def Let_def
      maxResPF_GetPath_def medResPE_GetPath_def lowResPE_GetPath_def case_prod_beta
      pfDef_DisableConstraint_def is_search_def)

lemma LowRes2MedRes_search_calls:
  "\<exists>xs. snd (LowRes2MedRes env sp ownr synced st) = snd st @ xs \<and> list_all is_search xs"
  by (simp add: LowRes2MedRes_def Let_def medResPE_GetPath_def case_prod_beta is_search_def)

lemma MedRes2MaxRes_search_calls:
  "\<exists>xs. snd (MedRes2MaxRes env sp ownr synced st) = snd st @ xs \<and> list_all is_search xs"
  by (simp add: MedRes2MaxRes_def Let_def maxResPF_GetPath_def case_prod_beta is_search_def)










lemma RequestPath_bracket:
  "\<exists>xs. calls (snd (snd (RequestPath_result env md sp gp pfDef cal synced s)))
          = calls s @ UnBlock cal [] @ xs @ Block cal []
        \<and> list_all is_search xs"
proof -
  let ?mp = "RequestPath_newPath sp gp pfDef (moveDefs env (pathType md)) cal"
  let ?S = "RequestPath_search env (moveDefs env (pathType md)) sp gp cal synced (?mp, UnBlock cal (calls s))"
  obtain xs where xs: "snd (snd ?S) = UnBlock cal (calls s) @ xs" "list_all is_search xs"
    using RequestPath_search_calls [of env "moveDefs env (pathType md)" sp gp cal synced
        "(?mp, UnBlock cal (calls s))"] by auto
  let ?L = "LowRes2MedRes env sp cal synced (snd ?S)"
  obtain ys where ys: "snd ?L = snd (snd ?S) @ ys" "list_all is_search ys"
    using LowRes2MedRes_search_calls [of env sp cal synced "snd ?S"] by blast
  let ?M = "MedRes2MaxRes env sp cal synced ?L"
  obtain zs where zs: "snd ?M = snd ?L @ zs" "list_all is_search zs"
    using MedRes2MaxRes_search_calls [of env sp cal synced ?L] by blast
  have r1: "calls (snd (snd (RequestPath_result env md sp gp pfDef cal synced s))) = Block cal (snd ?M)"
    if "fst ?S \<noteq> Error \<and> fst ?S \<noteq> CantGetCloser"
    using that by (simp add: RequestPath_result_def Let_def case_prod_beta Store_def)
  have r2: "calls (snd (snd (RequestPath_result env md sp gp pfDef cal synced s)))
      = Block cal (snd (snd ?S))"
    if "\<not> (fst ?S \<noteq> Error \<and> fst ?S \<noteq> CantGetCloser)"
    using that by (auto simp add: RequestPath_result_def Let_def case_prod_beta Store_def)
  have b: "Block cal (UnBlock cal (calls s) @ vs) = calls s @ UnBlock cal [] @ vs @ Block cal []" for vs
    by (simp add: Block_def UnBlock_def split: option.splits)
  show ?thesis
  proof (cases "fst ?S \<noteq> Error \<and> fst ?S \<noteq> CantGetCloser")
    case True
    have "snd ?M = UnBlock cal (calls s) @ (xs @ ys @ zs)"
      unfolding zs(1) ys(1) xs(1) by simp
    then have "calls (snd (snd (RequestPath_result env md sp gp pfDef cal synced s)))
        = calls s @ UnBlock cal [] @ (xs @ ys @ zs) @ Block cal []"
      unfolding r1 [OF True] using b [of "xs @ ys @ zs"] by simp
    moreover have "list_all is_search (xs @ ys @ zs)" using xs(2) ys(2) zs(2) by simp
    ultimately show ?thesis by blast
  next
    case False
    have "calls (snd (snd (RequestPath_result env md sp gp pfDef cal synced s)))
        = calls s @ UnBlock cal [] @ xs @ Block cal []"
      unfolding r2 [OF False] xs(1) by (rule b)
    with xs(2) show ?thesis by blast
  qed
qed

lemma NextWayPoint_refine_calls:
  assumes "needs_MedRes2MaxRes env mp callerPos"
  shows "\<exists>low fine.
      snd (NextWayPoint_refine env callerPos ownr synced (mp, cs))
        = cs @ low @ UnBlock (caller mp) [] @ fine @ Block (caller mp) []
      \<and> list_all (is_GetPath MedRes) low \<and> length low \<le> 1
      \<and> (low \<noteq> [] \<longleftrightarrow> needs_LowRes2MedRes env mp callerPos)
      \<and> list_all (is_GetPath MaxRes) fine \<and> length fine \<le> 1
      \<and> (\<not> needs_LowRes2MedRes env mp callerPos \<longrightarrow> fine \<noteq> [])"
proof (cases "needs_LowRes2MedRes env mp callerPos")
  case True
  then have ne: "path (lowResPath mp) \<noteq> []" by (simp add: needs_LowRes2MedRes_def)
  obtain mp1 cs1 where l: "LowRes2MedRes env callerPos ownr synced (mp, cs) = (mp1, cs1)"
    by (metis surj_pair)
  obtain low where low: "cs1 = cs @ low" "list_all (is_GetPath MedRes) low" "length low \<le> 1"
    "low \<noteq> []"
    using LowRes2MedRes_calls [of env callerPos ownr synced mp cs] ne l by auto
  have c1: "caller mp1 = caller mp"
    using LowRes2MedRes_caller [of env callerPos ownr synced mp cs] l by simp
  obtain fine where fine:
    "snd (MedRes2MaxRes env callerPos ownr synced (mp1, UnBlock (caller mp1) cs1))
       = UnBlock (caller mp1) cs1 @ fine" "list_all (is_GetPath MaxRes) fine" "length fine \<le> 1"
    using MedRes2MaxRes_calls [of env callerPos ownr synced mp1 "UnBlock (caller mp1) cs1"] by auto
  have "snd (NextWayPoint_refine env callerPos ownr synced (mp, cs))
      = cs @ low @ UnBlock (caller mp) [] @ fine @ Block (caller mp) []"
    using assms True l fine(1) c1 low(1) Block_append(2) [of "caller mp" "cs @ low"]
      Block_append(1) [of "caller mp" "cs @ low @ UnBlock (caller mp) [] @ fine"]
    by (simp add: NextWayPoint_refine_def case_prod_beta MedRes2MaxRes_caller)
  with low fine True show ?thesis by blast
next
  case False
  from assms have ne: "path (medResPath mp) \<noteq> []" by (simp add: needs_MedRes2MaxRes_def)
  obtain fine where fine:
    "snd (MedRes2MaxRes env callerPos ownr synced (mp, UnBlock (caller mp) cs))
       = UnBlock (caller mp) cs @ fine" "list_all (is_GetPath MaxRes) fine" "length fine \<le> 1"
    "fine \<noteq> []"
    using MedRes2MaxRes_calls [of env callerPos ownr synced mp "UnBlock (caller mp) cs"] ne by auto
  have "snd (NextWayPoint_refine env callerPos ownr synced (mp, cs))
      = cs @ [] @ UnBlock (caller mp) [] @ fine @ Block (caller mp) []"
    using assms False fine(1) Block_append(2) [of "caller mp" cs]
      Block_append(1) [of "caller mp" "cs @ UnBlock (caller mp) [] @ fine"]
    by (simp add: NextWayPoint_refine_def case_prod_beta MedRes2MaxRes_caller)
  with fine False show ?thesis by (intro exI [of _ "[]"] exI [of _ fine]) simp
qed

subsection \<open>NextWayPoint without a path\<close>

text \<open>
  C4. \<^verbatim>\<open>NextWayPoint\<close> returns the no-path point \<open>(-1, 0, -1)\<close> and leaves the state as
  it is when the handle is 0, when the handle is not in the registry, or when
  \<^verbatim>\<open>numRetries\<close> exceeds 4; a handle that \<^verbatim>\<open>DeletePath\<close> has just removed is such a
  handle.
\<close>

theorem NextWayPoint_no_path:
  "(pathID = 0 \<or> GetMultiPath s pathID = None \<or> numRetries > 4 \<longrightarrow>
      NextWayPoint env pathID callerPos minDistance numRetries ownr synced s
        = (\<lparr>fx = - 1, fy = 0, fz = - 1\<rparr>, s))
   \<and> NextWayPoint env pathID callerPos minDistance numRetries ownr synced (DeletePath pathID s)
        = (\<lparr>fx = - 1, fy = 0, fz = - 1\<rparr>, DeletePath pathID s)"
proof -
  have del: "pathID \<noteq> 0 \<Longrightarrow> GetMultiPath (DeletePath pathID s) pathID = None"
    by (simp add: GetMultiPath_def DeletePath_def split: option.splits)
  have a: "pathID = 0 \<or> GetMultiPath t pathID = None \<or> numRetries > 4 \<Longrightarrow>
      NextWayPoint env pathID callerPos minDistance numRetries ownr synced t
        = (\<lparr>fx = - 1, fy = 0, fz = - 1\<rparr>, t)" for t
    by (subst NextWayPoint.simps) (auto simp: noPathPoint_def)
  from a [of s] a [of "DeletePath pathID s"] del show ?thesis by blast
qed

theorem NextWayPoint_no_path_witness:
  "NextWayPoint test_env 0 ZeroVector 1 0 None True init_state = (noPathPoint, init_state)
   \<and> NextWayPoint test_env 7 ZeroVector 1 0 None True init_state = (noPathPoint, init_state)
   \<and> NextWayPoint test_env 7 ZeroVector 1 5 None True
        (init_state\<lparr>pathMap := [7 \<mapsto> newMultiPath ZeroVector (test_def ZeroVector ZeroVector) test_md]\<rparr>)
      = (noPathPoint,
         init_state\<lparr>pathMap := [7 \<mapsto> newMultiPath ZeroVector (test_def ZeroVector ZeroVector) test_md]\<rparr>)"
  using NextWayPoint_no_path [where env = test_env and pathID = 0 and s = init_state
      and numRetries = 0 and callerPos = ZeroVector and minDistance = 1 and ownr = None
      and synced = True]
    NextWayPoint_no_path [where env = test_env and pathID = 7 and s = init_state
      and numRetries = 0 and callerPos = ZeroVector and minDistance = 1 and ownr = None
      and synced = True]
    NextWayPoint_no_path [where env = test_env and pathID = 7 and numRetries = 5
      and callerPos = ZeroVector and minDistance = 1 and ownr = None and synced = True
      and s = "init_state\<lparr>pathMap :=
        [7 \<mapsto> newMultiPath ZeroVector (test_def ZeroVector ZeroVector) test_md]\<rparr>"]
  by (simp add: noPathPoint_def GetMultiPath_def init_state_def)

subsection \<open>The extra-cost overlay\<close>

text \<open>
  C7. \<^verbatim>\<open>SetNodeExtraCost(x, z, cost, synced)\<close> returns false and changes nothing when
  \<open>x \<ge> mapx\<close> or \<open>z \<ge> mapy\<close>; otherwise it returns true and what it does is exactly to
  set the same cost, at the same square and with the same \<^verbatim>\<open>synced\<close> flag, in the
  node-state buffers of the three tiers. \<^verbatim>\<open>GetNodeExtraCost\<close> returns 0 outside the map.
\<close>

theorem SetNodeExtraCost_bounds:
  "(px \<ge> mapx env \<or> pz \<ge> mapy env \<longrightarrow>
      SetNodeExtraCost env px pz cost synced s = (False, s)
      \<and> GetNodeExtraCost env px pz synced s = 0)
   \<and> (px < mapx env \<and> pz < mapy env \<longrightarrow>
        fst (SetNodeExtraCost env px pz cost synced s) = True
        \<and> pathMap (snd (SetNodeExtraCost env px pz cost synced s)) = pathMap s
        \<and> nextPathID (snd (SetNodeExtraCost env px pz cost synced s)) = nextPathID s
        \<and> calls (snd (SetNodeExtraCost env px pz cost synced s))
            = calls s @ map (\<lambda>t. CallSetNodeExtraCost t px pz cost synced) [MaxRes, MedRes, LowRes])"
  by (auto simp: SetNodeExtraCost_def GetNodeExtraCost_def)

theorem SetNodeExtraCost_bounds_witness:
  "SetNodeExtraCost test_env 100 3 5 True init_state = (False, init_state)
   \<and> GetNodeExtraCost test_env 100 3 True init_state = 0
   \<and> SetNodeExtraCost test_env 3 100 5 True init_state = (False, init_state)
   \<and> GetNodeExtraCost test_env 3 100 True init_state = 0
   \<and> fst (SetNodeExtraCost test_env 99 3 5 True init_state) = True
   \<and> calls (snd (SetNodeExtraCost test_env 99 3 5 True init_state))
       = [CallSetNodeExtraCost MaxRes 99 3 5 True, CallSetNodeExtraCost MedRes 99 3 5 True,
          CallSetNodeExtraCost LowRes 99 3 5 True]"
  using SetNodeExtraCost_bounds [where env = test_env and px = 100 and pz = 3 and cost = 5
      and synced = True and s = init_state]
    SetNodeExtraCost_bounds [where env = test_env and px = 3 and pz = 100 and cost = 5
      and synced = True and s = init_state]
    SetNodeExtraCost_bounds [where env = test_env and px = 99 and pz = 3 and cost = 5
      and synced = True and s = init_state]
  by (simp add: test_env_def init_state_def)

subsection \<open>The registry and the handles\<close>

text \<open>
  C2 (as amended). When the final outcome of the searches of \<^verbatim>\<open>RequestPath\<close> is
  \<^verbatim>\<open>Error\<close>, the handle 0 is returned and the registry and the counter are as before.
  Otherwise the record is stored, with that outcome, under the handle \<open>nextPathID + 1\<close>
  (modulo \<open>2^32\<close>), which is returned; this handle is not 0 and not in use, and the
  registry stays well formed, provided the registry is well formed and the counter has not
  reached \<open>2^32 - 1\<close>.
\<close>

theorem RequestPath_registry:
  "RequestPath_result env md sp gp pfDef cal synced s = (result, pathID, s') \<Longrightarrow>
     RequestPath env md sp gp pfDef cal synced s = (pathID, s')
     \<and> (result = Error \<longrightarrow> pathID = 0 \<and> pathMap s' = pathMap s \<and> nextPathID s' = nextPathID s)
     \<and> (result \<noteq> Error \<longrightarrow>
          pathID = nextPathID s + 1 \<and> nextPathID s' = pathID
          \<and> (\<exists>mp. pathMap s' = (pathMap s)(pathID \<mapsto> mp) \<and> searchResult mp = result)
          \<and> (registry_inv s \<and> nextPathID s \<noteq> - 1 \<longrightarrow>
                pathID \<noteq> 0 \<and> pathMap s pathID = None \<and> registry_inv s'))"
proof -
  assume r: "RequestPath_result env md sp gp pfDef cal synced s = (result, pathID, s')"
  note c = RequestPath_result_cases [OF r]
  have fresh: "pathID \<noteq> 0 \<and> pathMap s pathID = None \<and> registry_inv s'"
    if "result \<noteq> Error" "registry_inv s" "nextPathID s \<noteq> - 1"
  proof -
    from c that(1) obtain mp where p: "pathID = nextPathID s + 1" "nextPathID s' = pathID"
      "pathMap s' = (pathMap s)(pathID \<mapsto> mp)" by auto
    have k: "k \<le> nextPathID s + 1 \<and> k \<noteq> nextPathID s + 1" if "pathMap s k \<noteq> None" for k
      using word_succ_le [OF \<open>nextPathID s \<noteq> - 1\<close>, of k] that \<open>registry_inv s\<close>
      by (simp add: registry_inv_def)
    have z: "nextPathID s + 1 \<noteq> 0"
      using word_succ_le [OF \<open>nextPathID s \<noteq> - 1\<close>, of 0] by simp
    from k have "pathMap s pathID = None" unfolding p(1) by blast
    moreover have "registry_inv s'"
      unfolding registry_inv_def using k z \<open>registry_inv s\<close> p
      by (auto simp: registry_inv_def)
    ultimately show ?thesis using z p(1) by simp
  qed
  from c fresh r show ?thesis by (auto simp: RequestPath_def)
qed

theorem RequestPath_registry_witness:
  "fst (RequestPath test_env test_md (pos 0 0) (pos 0 0) (test_def (pos 0 0) (pos 0 0)) None True
          init_state) = 1
   \<and> pathMap (snd (RequestPath test_env test_md (pos 0 0) (pos 0 0) (test_def (pos 0 0) (pos 0 0))
                      None True init_state)) 1 \<noteq> None
   \<and> registry_inv (snd (RequestPath test_env test_md (pos 0 0) (pos 0 0)
                          (test_def (pos 0 0) (pos 0 0)) None True init_state))
   \<and> fst (RequestPath error_env test_md (pos 0 0) (pos 0 0) (test_def (pos 0 0) (pos 0 0)) None True
            init_state) = 0
   \<and> pathMap (snd (RequestPath error_env test_md (pos 0 0) (pos 0 0) (test_def (pos 0 0) (pos 0 0))
                      None True init_state)) = Map.empty"
proof -
  obtain pathID s' where
    r: "RequestPath_result test_env test_md (pos 0 0) (pos 0 0) (test_def (pos 0 0) (pos 0 0))
          None True init_state = (CantGetCloser, pathID, s')"
    using test_request_result [of init_state] by (metis prod.collapse)
  obtain pathID0 s0 where
    e: "RequestPath_result error_env test_md (pos 0 0) (pos 0 0) (test_def (pos 0 0) (pos 0 0))
          None True init_state = (Error, pathID0, s0)"
    using error_request_result [of init_state] by (metis prod.collapse)
  have i: "registry_inv init_state" "nextPathID init_state \<noteq> - 1" "nextPathID init_state = 0"
    "pathMap init_state = Map.empty"
    by (simp_all add: registry_inv_def init_state_def)
  from RequestPath_registry [OF r] i
  have "RequestPath test_env test_md (pos 0 0) (pos 0 0) (test_def (pos 0 0) (pos 0 0)) None True
          init_state = (pathID, s')" "pathID = 1" "pathMap s' 1 \<noteq> None" "registry_inv s'"
    by auto
  moreover from RequestPath_registry [OF e] i
  have "RequestPath error_env test_md (pos 0 0) (pos 0 0) (test_def (pos 0 0) (pos 0 0)) None True
          init_state = (pathID0, s0)" "pathID0 = 0" "pathMap s0 = Map.empty"
    by auto
  ultimately show ?thesis by simp
qed

text \<open>After \<open>2^32 - 1\<close> requests, each deleted at once, the counter stands at
  \<open>2^32 - 1\<close>: the next request, whose outcome is \<^verbatim>\<open>CantGetCloser\<close>, stores its record
  and returns the handle 0.\<close>

theorem RequestPath_zero_handle_counterexample:
  "fst (RequestPath_result test_env test_md (pos 0 0) (pos 0 0) (test_def (pos 0 0) (pos 0 0))
          None True (request_delete_cycles test_env 4294967295 init_state)) \<noteq> Error
   \<and> fst (RequestPath test_env test_md (pos 0 0) (pos 0 0) (test_def (pos 0 0) (pos 0 0))
          None True (request_delete_cycles test_env 4294967295 init_state)) = 0"
proof -
  let ?s = "request_delete_cycles test_env 4294967295 init_state"
  have "nextPathID ?s = of_nat 4294967295"
    using request_delete_cycles_state [of 4294967295] by simp
  then have n: "nextPathID ?s + 1 = 0" by simp
  obtain s' where
    r: "RequestPath_result test_env test_md (pos 0 0) (pos 0 0) (test_def (pos 0 0) (pos 0 0))
          None True ?s = (CantGetCloser, nextPathID ?s + 1, s')"
    using test_request [of ?s] by blast
  show ?thesis unfolding RequestPath_def r n by simp
qed



text \<open>
  C3 (as amended). \<^verbatim>\<open>Store\<close> returns the counter incremented by one, modulo \<open>2^32\<close>, and
  \<^verbatim>\<open>DeletePath\<close> leaves the counter alone, so the \<open>k\<close>-th handle issued in a run that
  starts in \<open>s\<close> is \<open>nextPathID s + k\<close>, whatever deletions and deliveries of waypoints
  lie between the requests. As long as the counter does not pass \<open>2^32 - 1\<close> the handles
  issued are distinct and non-zero.
\<close>

theorem handles_issued_by_counter:
  "fst (Store mp s) = nextPathID s + 1
   \<and> nextPathID (snd (Store mp s)) = nextPathID s + 1
   \<and> nextPathID (DeletePath pathID s) = nextPathID s
   \<and> issued_handles env ops s
       = map (\<lambda>k. nextPathID s + of_nat k) [1..<Suc (length (issued_handles env ops s))]
   \<and> (unat (nextPathID s) + length (issued_handles env ops s) < 2 ^ 32 \<longrightarrow>
        distinct (issued_handles env ops s) \<and> 0 \<notin> set (issued_handles env ops s))"
proof -
  have d: "distinct (issued_handles env ops s) \<and> 0 \<notin> set (issued_handles env ops s)"
    if "unat (nextPathID s) + length (issued_handles env ops s) < 2 ^ 32"
    using handles_distinct_nonzero [OF that] issued_handles_closed [of env ops s] by metis
  have st: "fst (Store mp s) = nextPathID s + 1" "nextPathID (snd (Store mp s)) = nextPathID s + 1"
    by (simp_all add: Store_def Let_def)
  from d st DeletePath_frame(1) [of pathID s] issued_handles_closed [of env ops s]
  show ?thesis by blast
qed

theorem handles_issued_by_counter_witness:
  "issued_handles test_env [test_req, OpDeletePath 1, test_req, test_req] init_state = [1, 2, 3]
   \<and> distinct (issued_handles test_env [test_req, OpDeletePath 1, test_req, test_req] init_state)
   \<and> 0 \<notin> set (issued_handles test_env [test_req, OpDeletePath 1, test_req, test_req] init_state)"
proof -
  let ?ops = "[test_req, OpDeletePath 1, test_req, test_req]"
  have len: "length (issued_handles test_env ?ops init_state) = 3"
  proof -
    obtain s1 where
      r1: "RequestPath_result test_env test_md (pos 0 0) (pos 0 0) (test_def (pos 0 0) (pos 0 0))
            None True init_state = (CantGetCloser, nextPathID init_state + 1, s1)"
      using test_request [of init_state] by blast
    have "length (issued_handles test_env (replicate 2 test_req) (DeletePath 1 s1)) = 2"
      by (rule issued_handles_test_req)
    then show ?thesis by (simp add: test_req_def r1 numeral_2_eq_2)
  qed
  have z: "nextPathID init_state = 0" by (simp add: init_state_def)
  from handles_issued_by_counter [where env = test_env and ops = ?ops and s = init_state]
  show ?thesis unfolding len z by (simp add: upt_conv_Cons)
qed

text \<open>\<open>2^32 + 1\<close> successful requests in a row: the \<open>2^32\<close>-th handle is 0, and the last
  handle is the first one again.\<close>

theorem handles_wrap_counterexample:
  "length (issued_handles test_env (replicate 4294967297 test_req) init_state) = 4294967297
   \<and> issued_handles test_env (replicate 4294967297 test_req) init_state ! 4294967295 = 0
   \<and> issued_handles test_env (replicate 4294967297 test_req) init_state ! 0
       = issued_handles test_env (replicate 4294967297 test_req) init_state ! 4294967296"
proof -
  define hs where "hs = issued_handles test_env (replicate 4294967297 test_req) init_state"
  have len: "length hs = 4294967297"
    unfolding hs_def by (rule issued_handles_test_req)
  have nth: "hs ! i = of_nat (Suc i)" if "i < 4294967297" for i
    using issued_handles_nth [of i test_env "replicate 4294967297 test_req" init_state] that len
    unfolding hs_def by (simp add: init_state_def)
  have "hs ! 4294967295 = 0" by (subst nth) simp_all
  moreover have "hs ! 0 = 1" by (subst nth) simp_all
  moreover have "hs ! 4294967296 = 1" by (subst nth) simp_all
  ultimately show ?thesis using len unfolding hs_def by simp
qed

subsection \<open>The dummy waypoint\<close>

text \<open>
  C1 (as amended). When the final outcome of the searches of \<^verbatim>\<open>RequestPath\<close> is
  \<^verbatim>\<open>CantGetCloser\<close>, the record is stored under the returned handle with that outcome and
  with a fine tier that is not empty: if the searches left the fine tier without waypoints,
  the start position is its only waypoint and the square of the start position is appended
  to its squares; otherwise the record is stored as the searches left it.
\<close>

theorem CantGetCloser_dummy_waypoint:
  assumes "RequestPath_search env (moveDefs env (pathType md)) sp gp cal synced
             (RequestPath_newPath sp gp pfDef (moveDefs env (pathType md)) cal, UnBlock cal (calls s))
           = (CantGetCloser, np, cs)"
  shows "\<exists>mp. pathMap (snd (RequestPath env md sp gp pfDef cal synced s))
                 (fst (RequestPath env md sp gp pfDef cal synced s)) = Some mp
            \<and> searchResult mp = CantGetCloser
            \<and> path (maxResPath mp) \<noteq> []
            \<and> (path (maxResPath np) = [] \<longrightarrow>
                  mp = np\<lparr>searchResult := CantGetCloser,
                          maxResPath := (maxResPath np)\<lparr>path := [sp],
                             squares := squares (maxResPath np) @
                               [(float2int (fx sp / SQUARE_SIZE env),
                                 float2int (fz sp / SQUARE_SIZE env))]\<rparr>\<rparr>)
            \<and> (path (maxResPath np) \<noteq> [] \<longrightarrow> mp = np\<lparr>searchResult := CantGetCloser\<rparr>)"
  using assms
  by (simp add: RequestPath_def RequestPath_result_def Let_def Store_def add_dummy_waypoint_def)

theorem CantGetCloser_dummy_waypoint_witness:
  "map_option (path \<circ> maxResPath)
     (pathMap (snd (RequestPath test_env test_md (pos 0 0) (pos 0 0) (test_def (pos 0 0) (pos 0 0))
                      None True init_state))
        (fst (RequestPath test_env test_md (pos 0 0) (pos 0 0) (test_def (pos 0 0) (pos 0 0))
                None True init_state))) = Some [pos 0 0]
   \<and> map_option (squares \<circ> maxResPath)
     (pathMap (snd (RequestPath test_env test_md (pos 0 0) (pos 0 0) (test_def (pos 0 0) (pos 0 0))
                      None True init_state))
        (fst (RequestPath test_env test_md (pos 0 0) (pos 0 0) (test_def (pos 0 0) (pos 0 0))
                None True init_state))) = Some [(0, 0)]"
proof -
  obtain cs where
    r: "RequestPath_search test_env (moveDefs test_env (pathType test_md)) (pos 0 0) (pos 0 0) None True
         (RequestPath_newPath (pos 0 0) (pos 0 0) (test_def (pos 0 0) (pos 0 0))
            (moveDefs test_env (pathType test_md)) None, UnBlock None (calls init_state))
       = (CantGetCloser,
          RequestPath_newPath (pos 0 0) (pos 0 0) (test_def (pos 0 0) (pos 0 0))
            (moveDefs test_env (pathType test_md)) None, cs)"
    using test_search by blast
  have e: "path (maxResPath (RequestPath_newPath (pos 0 0) (pos 0 0) (test_def (pos 0 0) (pos 0 0))
            (moveDefs test_env (pathType test_md)) None)) = []"
     "squares (maxResPath (RequestPath_newPath (pos 0 0) (pos 0 0) (test_def (pos 0 0) (pos 0 0))
            (moveDefs test_env (pathType test_md)) None)) = []"
    by (simp_all add: RequestPath_newPath_def newMultiPath_def emptyPath_def)
  have q: "(float2int (fx (pos 0 0) / SQUARE_SIZE test_env),
            float2int (fz (pos 0 0) / SQUARE_SIZE test_env)) = (0, 0)"
    by (simp add: float2int_def pos_def test_env_def)
  from CantGetCloser_dummy_waypoint [OF r] e q show ?thesis by auto
qed

text \<open>A request in the long band: the coarse estimator answers \<^verbatim>\<open>GoalOutOfRange\<close> with
  one waypoint, which the refinement drops, and the medium estimator cannot get closer. The
  record is stored with the outcome \<^verbatim>\<open>GoalOutOfRange\<close> and without a waypoint on any
  tier.\<close>

theorem stored_GoalOutOfRange_counterexample:
  "map_option searchResult
     (pathMap (snd (RequestPath out_of_range_env test_md (pos 0 0) (pos 792 0)
                      (test_def (pos 0 0) (pos 792 0)) None True init_state))
        (fst (RequestPath out_of_range_env test_md (pos 0 0) (pos 792 0)
                (test_def (pos 0 0) (pos 792 0)) None True init_state))) = Some GoalOutOfRange
   \<and> map_option (path \<circ> maxResPath)
     (pathMap (snd (RequestPath out_of_range_env test_md (pos 0 0) (pos 792 0)
                      (test_def (pos 0 0) (pos 792 0)) None True init_state))
        (fst (RequestPath out_of_range_env test_md (pos 0 0) (pos 792 0)
                (test_def (pos 0 0) (pos 792 0)) None True init_state))) = Some []
   \<and> map_option (path \<circ> medResPath)
     (pathMap (snd (RequestPath out_of_range_env test_md (pos 0 0) (pos 792 0)
                      (test_def (pos 0 0) (pos 792 0)) None True init_state))
        (fst (RequestPath out_of_range_env test_md (pos 0 0) (pos 792 0)
                (test_def (pos 0 0) (pos 792 0)) None True init_state))) = Some []
   \<and> map_option (path \<circ> lowResPath)
     (pathMap (snd (RequestPath out_of_range_env test_md (pos 0 0) (pos 792 0)
                      (test_def (pos 0 0) (pos 792 0)) None True init_state))
        (fst (RequestPath out_of_range_env test_md (pos 0 0) (pos 792 0)
                (test_def (pos 0 0) (pos 792 0)) None True init_state))) = Some []"
  by (simp add: RequestPath_def RequestPath_result_def RequestPath_search_def search_long_def goalDist2D_def
      out_of_range_env_def test_env_def test_md_def pos_def test_def_def newMultiPath_def
      RequestPath_newPath_def pfDef_DisableConstraint_def DisableConstraint_def
      CRangedGoalWithCircularConstraint_def maxResPF_GetPath_def medResPE_GetPath_def
      lowResPE_GetPath_def UnBlock_def Block_def emptyPath_def Let_def Store_def
      LowRes2MedRes_def MedRes2MaxRes_def pop_back_while.simps init_state_def)

subsection \<open>The medium band\<close>



subsection \<open>Heat along a path\<close>

text \<open>
  C6 (as amended). \<^verbatim>\<open>UpdatePath\<close> does nothing for the handle 0, for an unknown handle
  and for an owner whose movement class has heat mapping disabled. Otherwise, with \<open>N\<close>
  squares on the fine tier, it makes one deposit per square, from the start of the path to
  its goal, and the square \<open>k\<close> from the start receives \<open>(N - k) * (1 / N) * heatProduced\<close>
  as single precision computes it (the quotient and the two products rounded), truncated
  to an integer. For a heat that is not negative, no amount is negative and the amounts
  taper: no square receives more than a square before it. For a heat of at least 1 and a
  path of fewer than \<open>2 ^ 24\<close> squares, the amount of the square \<open>k\<close> is
  \<open>(N - k) / N * heatProduced\<close> up to the rounding (a \<open>2 ^ 21\<close>-th of it) and the
  truncation (less than 1), so that the amounts add up to
  \<open>heatProduced * (N + 1) / 2\<close>, and not to \<open>heatProduced\<close>, up to a \<open>2 ^ 21\<close>-th of it
  and less than 1 for each square.
\<close>

theorem UpdatePath_deposits:
  "(pathID = 0 \<or> \<not> heatMapping (objMoveDef ownr) \<or> GetMultiPath s pathID = None
      \<longrightarrow> UpdatePath ownr pathID s = s)
   \<and> (pathID \<noteq> 0 \<and> heatMapping (objMoveDef ownr) \<and> GetMultiPath s pathID = Some mp \<longrightarrow>
       (let pts = rev (squares (maxResPath mp));
            N = length pts;
            H = heatProduced (objMoveDef ownr);
            amount = (\<lambda>k. float2int (f32 (f32 (f32 (real (N - k)) * f32 (1 / f32 (real N))) * f32 H)))
        in UpdatePath ownr pathID s =
             s\<lparr>calls := calls s @
                 map (\<lambda>k. CallUpdateHeatValue (fst (pts ! k)) (snd (pts ! k)) (amount k) ownr)
                   [0..<N]\<rparr>
           \<and> heat_deposited (calls (UpdatePath ownr pathID s))
               = heat_deposited (calls s) + (\<Sum>k<N. amount k)
           \<and> (0 \<le> H \<longrightarrow> (\<forall>k<N. \<forall>j\<le>k. 0 \<le> amount k \<and> amount k \<le> amount j))
           \<and> (1 \<le> H \<and> N < 2 ^ 24 \<longrightarrow>
                (\<forall>k<N. real (N - k) / real N * H * (1 - 1 / 2 ^ 21) - 1 < of_int (amount k)
                       \<and> of_int (amount k) \<le> real (N - k) / real N * H * (1 + 1 / 2 ^ 21))
              \<and> (0 < N \<longrightarrow>
                    H * (real N + 1) / 2 * (1 - 1 / 2 ^ 21) - real N < of_int (\<Sum>k<N. amount k)
                  \<and> of_int (\<Sum>k<N. amount k) \<le> H * (real N + 1) / 2 * (1 + 1 / 2 ^ 21)))))"
proof -
  let ?pts = "rev (squares (maxResPath mp))"
  let ?N = "length ?pts"
  let ?H = "heatProduced (objMoveDef ownr)"
  let ?amount = "\<lambda>k. float2int (f32 (f32 (f32 (real (?N - k)) * f32 (1 / f32 (real ?N))) * f32 ?H))"
  let ?lo = "\<lambda>k. real (?N - k) / real ?N * ?H * (1 - 1 / 2 ^ 21)"
  let ?hi = "\<lambda>k. real (?N - k) / real ?N * ?H * (1 + 1 / 2 ^ 21)"
  have a: "UpdatePath ownr pathID s = s"
    if "pathID = 0 \<or> \<not> heatMapping (objMoveDef ownr) \<or> GetMultiPath s pathID = None"
    using that by (auto simp: UpdatePath_def GetDetailedPathSquares_def)
  have b: "UpdatePath ownr pathID s =
      s\<lparr>calls := calls s @
        map (\<lambda>k. CallUpdateHeatValue (fst (?pts ! k)) (snd (?pts ! k)) (?amount k) ownr) [0..<?N]\<rparr>"
    if "pathID \<noteq> 0 \<and> heatMapping (objMoveDef ownr) \<and> GetMultiPath s pathID = Some mp"
    using that
    by (simp add: UpdatePath_def GetDetailedPathSquares_def Let_def UpdatePath_loop_eq
        del: upt_Suc)
  have h: "heat_deposited (calls (UpdatePath ownr pathID s))
      = heat_deposited (calls s) + (\<Sum>k<?N. ?amount k)"
    if "pathID \<noteq> 0 \<and> heatMapping (objMoveDef ownr) \<and> GetMultiPath s pathID = Some mp"
  proof -
    have "calls (UpdatePath ownr pathID s) = calls s @
        map (\<lambda>k. CallUpdateHeatValue (fst (?pts ! k)) (snd (?pts ! k)) (?amount k) ownr) [0..<?N]"
      unfolding b [OF that] by simp
    then show ?thesis by (simp only: heat_deposited_append heat_deposited_map)
  qed
  have sc: "0 \<le> f32 (1 / f32 (real ?N))"
    by (intro f32_nonneg divide_nonneg_nonneg) simp_all
  have c: "\<forall>k<?N. \<forall>j\<le>k. 0 \<le> ?amount k \<and> ?amount k \<le> ?amount j" if "0 \<le> ?H"
  proof (intro allI impI conjI)
    fix k j :: nat
    assume "j \<le> k"
    then have "?N - k \<le> ?N - j" by (rule diff_le_mono2)
    then show "?amount k \<le> ?amount j" by (rule heat_amount_mono(2) [OF sc that])
    show "0 \<le> ?amount k" by (rule heat_amount_mono(1) [OF sc that le_refl])
  qed
  have e: "?lo k - 1 < of_int (?amount k)" "of_int (?amount k) \<le> ?hi k"
    if "1 \<le> ?H \<and> ?N < 2 ^ 24" "k < ?N" for k
  proof -
    from that have k: "0 < ?N - k" "?N - k \<le> ?N" "?N < 2 ^ 24" "1 \<le> ?H" by simp_all
    show "?lo k - 1 < of_int (?amount k)" by (rule heat_amount_error(1) [OF k])
    show "of_int (?amount k) \<le> ?hi k" by (rule heat_amount_error(2) [OF k])
  qed
  have t: "?H * (real ?N + 1) / 2 * (1 - 1 / 2 ^ 21) - real ?N < of_int (\<Sum>k<?N. ?amount k)
      \<and> of_int (\<Sum>k<?N. ?amount k) \<le> ?H * (real ?N + 1) / 2 * (1 + 1 / 2 ^ 21)"
    if r: "1 \<le> ?H \<and> ?N < 2 ^ 24" and n: "0 < ?N"
  proof
    have "(\<Sum>k<?N. ?lo k - 1) < (\<Sum>k<?N. real_of_int (?amount k))"
    proof (rule sum_strict_mono)
      show "finite {..<?N}" by simp
      show "{..<?N} \<noteq> {}" using n by auto
      show "?lo k - 1 < real_of_int (?amount k)" if "k \<in> {..<?N}" for k
        using that by (intro e(1) [OF r]) simp
    qed
    moreover have "(\<Sum>k<?N. ?lo k - 1) = (\<Sum>k<?N. ?lo k) - real ?N"
      by (simp add: sum_subtractf)
    ultimately show "?H * (real ?N + 1) / 2 * (1 - 1 / 2 ^ 21) - real ?N < of_int (\<Sum>k<?N. ?amount k)"
      by (simp only: sum_taper_scaled [OF n] of_int_sum)
    have "(\<Sum>k<?N. real_of_int (?amount k)) \<le> (\<Sum>k<?N. ?hi k)"
    proof (rule sum_mono)
      show "real_of_int (?amount k) \<le> ?hi k" if "k \<in> {..<?N}" for k
        using that by (intro e(2) [OF r]) simp
    qed
    then show "of_int (\<Sum>k<?N. ?amount k) \<le> ?H * (real ?N + 1) / 2 * (1 + 1 / 2 ^ 21)"
      by (simp only: sum_taper_scaled [OF n] of_int_sum)
  qed
  have et: "(\<forall>k<?N. ?lo k - 1 < of_int (?amount k) \<and> of_int (?amount k) \<le> ?hi k)
      \<and> (0 < ?N \<longrightarrow>
            ?H * (real ?N + 1) / 2 * (1 - 1 / 2 ^ 21) - real ?N < of_int (\<Sum>k<?N. ?amount k)
          \<and> of_int (\<Sum>k<?N. ?amount k) \<le> ?H * (real ?N + 1) / 2 * (1 + 1 / 2 ^ 21))"
    if r: "1 \<le> ?H \<and> ?N < 2 ^ 24"
    using e [OF r] t [OF r] by blast
  show ?thesis unfolding Let_def
  proof (intro conjI impI)
    assume "pathID = 0 \<or> \<not> heatMapping (objMoveDef ownr) \<or> GetMultiPath s pathID = None"
    then show "UpdatePath ownr pathID s = s" by (rule a)
  next
    assume "pathID \<noteq> 0 \<and> heatMapping (objMoveDef ownr) \<and> GetMultiPath s pathID = Some mp"
    then show "UpdatePath ownr pathID s =
      s\<lparr>calls := calls s @
        map (\<lambda>k. CallUpdateHeatValue (fst (?pts ! k)) (snd (?pts ! k)) (?amount k) ownr) [0..<?N]\<rparr>"
      by (rule b)
  next
    assume "pathID \<noteq> 0 \<and> heatMapping (objMoveDef ownr) \<and> GetMultiPath s pathID = Some mp"
    then show "heat_deposited (calls (UpdatePath ownr pathID s))
      = heat_deposited (calls s) + (\<Sum>k<?N. ?amount k)"
      by (rule h)
  next
    assume "0 \<le> ?H"
    then show "\<forall>k<?N. \<forall>j\<le>k. 0 \<le> ?amount k \<and> ?amount k \<le> ?amount j" by (rule c)
  next
    assume r: "1 \<le> ?H \<and> ?N < 2 ^ 24"
    show "\<forall>k<?N. ?lo k - 1 < of_int (?amount k) \<and> of_int (?amount k) \<le> ?hi k"
      using et [OF r] by blast
  next
    assume r: "1 \<le> ?H \<and> ?N < 2 ^ 24" and n: "0 < ?N"
    show "?H * (real ?N + 1) / 2 * (1 - 1 / 2 ^ 21) - real ?N < of_int (\<Sum>k<?N. ?amount k)"
      using t [OF r n] by blast
  next
    assume r: "1 \<le> ?H \<and> ?N < 2 ^ 24" and n: "0 < ?N"
    show "of_int (\<Sum>k<?N. ?amount k) \<le> ?H * (real ?N + 1) / 2 * (1 + 1 / 2 ^ 21)"
      using t [OF r n] by blast
  qed
qed

theorem UpdatePath_deposits_witness:
  "calls (UpdatePath test_unit 1 heat_state)
     = [CallUpdateHeatValue 0 0 30 test_unit, CallUpdateHeatValue 1 0 15 test_unit]
   \<and> UpdatePath (test_unit\<lparr>objMoveDef := test_md\<lparr>heatMapping := False\<rparr>\<rparr>) 1 heat_state = heat_state
   \<and> 1 \<le> heatProduced (objMoveDef test_unit)
   \<and> 30 * (2 + 1) / 2 * (1 - 1 / 2 ^ 21) - 2
        < real_of_int (heat_deposited (calls (UpdatePath test_unit 1 heat_state)))
   \<and> real_of_int (heat_deposited (calls (UpdatePath test_unit 1 heat_state)))
        \<le> 30 * (2 + 1) / 2 * (1 + 1 / 2 ^ 21)"
proof -
  let ?mp = "(newMultiPath (pos 0 0) (test_def (pos 0 0) (pos 8 0)) test_md)
        \<lparr>maxResPath := \<lparr>path = [pos 8 0, pos 0 0], squares = [(1, 0), (0, 0)],
                         pathGoal = pos 8 0\<rparr>\<rparr>"
  let ?N = "length (rev (squares (maxResPath ?mp)))"
  let ?H = "heatProduced (objMoveDef test_unit)"
  let ?amount = "\<lambda>k. float2int (f32 (f32 (f32 (real (?N - k)) * f32 (1 / f32 (real ?N))) * f32 ?H))"
  have m: "GetMultiPath heat_state 1 = Some ?mp"
    by (simp add: GetMultiPath_def heat_state_def)
  have h: "(1::pathid) \<noteq> 0 \<and> heatMapping (objMoveDef test_unit) \<and> GetMultiPath heat_state 1 = Some ?mp"
    using m by (simp add: test_unit_def test_md_def)
  have n: "\<not> heatMapping (objMoveDef (test_unit\<lparr>objMoveDef := test_md\<lparr>heatMapping := False\<rparr>\<rparr>))"
    by simp
  have N: "?N = 2" by simp
  have H: "?H = 30" by (simp add: test_unit_def test_md_def)
  have r: "1 \<le> ?H \<and> ?N < 2 ^ 24" "0 < ?N" unfolding H by simp_all
  have c0: "heat_deposited (calls heat_state) = 0" by (simp add: heat_state_def init_state_def)
  have e: "float2int (f32 (f32 (f32 2 * f32 (1 / f32 2)) * f32 30)) = 30"
    "float2int (f32 (f32 (f32 1 * f32 (1 / f32 2)) * f32 30)) = 15"
    by (simp_all add: f32_eval)
  note T = UpdatePath_deposits [where pathID = 1 and ownr = test_unit and s = heat_state and mp = ?mp,
      unfolded Let_def]
  from T h
  have "UpdatePath test_unit 1 heat_state =
      heat_state\<lparr>calls := calls heat_state @
        map (\<lambda>k. CallUpdateHeatValue (fst (rev (squares (maxResPath ?mp)) ! k))
                    (snd (rev (squares (maxResPath ?mp)) ! k)) (?amount k) test_unit)
          [0..<?N]\<rparr>"
    by blast
  then have w1: "calls (UpdatePath test_unit 1 heat_state)
     = [CallUpdateHeatValue 0 0 30 test_unit, CallUpdateHeatValue 1 0 15 test_unit]"
    by (simp add: upt_conv_Cons e heat_state_def init_state_def test_unit_def test_md_def)
  from UpdatePath_deposits [where pathID = 1 and s = heat_state
      and ownr = "test_unit\<lparr>objMoveDef := test_md\<lparr>heatMapping := False\<rparr>\<rparr>"] n
  have w2: "UpdatePath (test_unit\<lparr>objMoveDef := test_md\<lparr>heatMapping := False\<rparr>\<rparr>) 1 heat_state = heat_state"
    by blast
  from T h have d: "heat_deposited (calls (UpdatePath test_unit 1 heat_state))
      = heat_deposited (calls heat_state) + (\<Sum>k<?N. ?amount k)"
    by blast
  from T h r have t: "?H * (real ?N + 1) / 2 * (1 - 1 / 2 ^ 21) - real ?N < of_int (\<Sum>k<?N. ?amount k)"
    "of_int (\<Sum>k<?N. ?amount k) \<le> ?H * (real ?N + 1) / 2 * (1 + 1 / 2 ^ 21)"
    by blast+
  have d': "heat_deposited (calls (UpdatePath test_unit 1 heat_state)) = (\<Sum>k<?N. ?amount k)"
    unfolding d c0 by simp
  have w3: "30 * (2 + 1) / 2 * (1 - 1 / 2 ^ 21) - 2
        < real_of_int (heat_deposited (calls (UpdatePath test_unit 1 heat_state)))"
    "real_of_int (heat_deposited (calls (UpdatePath test_unit 1 heat_state)))
        \<le> 30 * (2 + 1) / 2 * (1 + 1 / 2 ^ 21)"
    using t unfolding d' H by simp_all
  from w1 w2 w3 r(1) show ?thesis by blast
qed

text \<open>Two squares and a heat of 30: the deposits are 30 and 15.\<close>

theorem heat_sum_counterexample:
  "heat_deposited (calls (UpdatePath test_unit 1 heat_state)) = 45
   \<and> heatProduced (objMoveDef test_unit) = 30"
  by (simp add: UpdatePath_def GetDetailedPathSquares_def GetMultiPath_def heat_state_def
      init_state_def test_unit_def test_md_def SetHeatOnSquare_def f32_eval)

text \<open>The rounding shows in the integers deposited. With 25 squares and a heat of 30 the
  squares 5, 10, 15 and 20 from the start receive 23, 17, 11 and 5 (the exact amounts are
  24, 18, 12 and 6: the rounded \<open>1 / 25\<close> is below the exact one), and with 41 squares the
  first square receives 29.\<close>

lemma single_precision_amounts:
  "map (\<lambda>k. float2int (f32 (f32 (f32 (real (25 - k)) * f32 (1 / f32 (real 25))) * f32 30)))
     [5, 10, 15, 20] = [23, 17, 11, 5]"
  "float2int (f32 (f32 (f32 (real (41 - 0)) * f32 (1 / f32 (real 41))) * f32 30)) = 29"
  "f32 (1 / f32 (real 25)) = 5368709 / 134217728"
  by (simp_all add: f32_eval)

subsection \<open>Refinement and the blocking map\<close>

text \<open>
  C8 (as amended). \<^verbatim>\<open>RequestPath\<close> unblocks the calling entity, if there is one, before
  its first search and blocks it after its last. When \<^verbatim>\<open>NextWayPoint\<close> refines the record,
  the calls it makes are, in this order: the search of the medium estimator for
  \<^verbatim>\<open>LowRes2MedRes\<close>, exactly when the coarse tier needs bettering too; \<^verbatim>\<open>UnBlock\<close> of the
  calling entity of the record, if it has one; at most one search of the fine engine, for
  \<^verbatim>\<open>MedRes2MaxRes\<close>; \<^verbatim>\<open>Block\<close> of the same entity. Only the medium-to-fine search lies
  between \<^verbatim>\<open>UnBlock\<close> and \<^verbatim>\<open>Block\<close>.
\<close>

theorem refinement_bracket:
  "(\<exists>xs. calls (snd (snd (RequestPath_result env md sp gp pfDef cal synced s)))
           = calls s @ UnBlock cal [] @ xs @ Block cal []
         \<and> list_all is_search xs)
   \<and> (needs_MedRes2MaxRes env mp callerPos \<longrightarrow>
        (\<exists>low fine.
           snd (NextWayPoint_refine env callerPos ownr synced (mp, cs))
             = cs @ low @ UnBlock (caller mp) [] @ fine @ Block (caller mp) []
           \<and> list_all (is_GetPath MedRes) low \<and> length low \<le> 1
           \<and> (low \<noteq> [] \<longleftrightarrow> needs_LowRes2MedRes env mp callerPos)
           \<and> list_all (is_GetPath MaxRes) fine \<and> length fine \<le> 1
           \<and> (\<not> needs_LowRes2MedRes env mp callerPos \<longrightarrow> fine \<noteq> [])))"
  using RequestPath_bracket [of env md sp gp pfDef cal synced s]
    NextWayPoint_refine_calls [of env mp callerPos ownr synced cs]
  by blast

theorem refinement_bracket_witness:
  "needs_MedRes2MaxRes test_env refine_mp (pos 1 0)
   \<and> (\<exists>low fine.
      snd (NextWayPoint_refine test_env (pos 1 0) (Some test_unit) True (refine_mp, []))
        = [] @ low @ UnBlock (caller refine_mp) [] @ fine @ Block (caller refine_mp) []
      \<and> list_all (is_GetPath MedRes) low \<and> length low \<le> 1
      \<and> (low \<noteq> [] \<longleftrightarrow> needs_LowRes2MedRes test_env refine_mp (pos 1 0))
      \<and> list_all (is_GetPath MaxRes) fine \<and> length fine \<le> 1
      \<and> (\<not> needs_LowRes2MedRes test_env refine_mp (pos 1 0) \<longrightarrow> fine \<noteq> []))"
proof -
  have h: "needs_MedRes2MaxRes test_env refine_mp (pos 1 0)"
    by (simp add: needs_MedRes2MaxRes_def refine_mp_def)
  from h refinement_bracket [where env = test_env and mp = refine_mp and callerPos = "pos 1 0"
      and ownr = "Some test_unit" and synced = True and cs = "[]"]
  show ?thesis by blast
qed

text \<open>A delivery that refines both tiers: the medium estimator is asked before the entity
  is unblocked.\<close>

theorem NextWayPoint_search_before_UnBlock_counterexample:
  "calls (snd (NextWayPoint test_env 1 (pos 1 0) 1 0 (Some test_unit) True refine_state))
   = [CallGetPath MedRes test_md (pos 1 0)
        (CRangedGoalWithCircularConstraint (pos 1 0) (pos 792 0) 0 2 20) 2000 None True,
      CallUnBlock test_unit,
      CallGetPath MaxRes test_md (pos 1 0)
        (CRangedGoalWithCircularConstraint (pos 1 0) (pos 640 0) 0 2 1000) 8192 (Some test_unit) True,
      CallBlock test_unit]"
  apply (subst NextWayPoint.simps)
  apply (simp add: refine_state_def refine_mp_def GetMultiPath_def init_state_def
      NextWayPoint_refine_def needs_MedRes2MaxRes_def needs_LowRes2MedRes_def
      LowRes2MedRes_def MedRes2MaxRes_def pop_back_while.simps NextWayPoint_loop.simps
      medResPE_GetPath_def maxResPF_GetPath_def UnBlock_def Block_def Let_def NextWayPoint_callerPos_def
      test_env_def test_md_def test_unit_def pos_def test_def_def newMultiPath_def emptyPath_def
      CRangedGoalWithCircularConstraint_def SqDistance2D_def Square_def ZeroVector_def)
  done

subsection \<open>Positions outside the map\<close>



text \<open>The same request in full: four searches from the clamped start, and the stored
  record.\<close>

lemma RequestPath_out_of_bounds:
  "RequestPath_goalRadius test_env test_md (pos (- 5) 900) (pos 1000 40) 0 None True init_state
     = (1, \<lparr>pathMap = [1 \<mapsto>
               (RequestPath_newPath (pos 0 799) (pos 799 40)
                  (DisableConstraint True (test_def (pos 0 799) (pos 799 40))) test_md None)
               \<lparr>maxResPath := \<lparr>path = [pos 0 799], squares = [(0, 99)], pathGoal = ZeroVector\<rparr>,
                 searchResult := CantGetCloser\<rparr>],
            nextPathID = 1,
            calls =
              [CallGetPath LowRes test_md (pos 0 799) (test_def (pos 0 799) (pos 799 40)) 8192 None True,
               CallGetPath MedRes test_md (pos 0 799) (test_def (pos 0 799) (pos 799 40)) 8192 None True,
               CallGetPath MaxRes test_md (pos 0 799) (test_def (pos 0 799) (pos 799 40)) 8192 None True,
               CallGetPath LowRes test_md (pos 0 799)
                 (DisableConstraint True (test_def (pos 0 799) (pos 799 40))) 8192 None True]\<rparr>)"
  by (simp add: RequestPath_goalRadius_def RequestPath_def RequestPath_result_def
      RequestPath_search_def search_long_def goalDist2D_def ClampInBounds_def
      test_env_def test_md_def pos_def test_def_def newMultiPath_def RequestPath_newPath_def
      CRangedGoalWithCircularConstraint_def DisableConstraint_def pfDef_DisableConstraint_def
      maxResPF_GetPath_def medResPE_GetPath_def lowResPE_GetPath_def
      UnBlock_def Block_def emptyPath_def Let_def Store_def init_state_def
      add_dummy_waypoint_def float2int_def SqLength2D_def float3_minus_def ZeroVector_def)

subsection \<open>A zero caller position\<close>

text \<open>
  C10. When \<^verbatim>\<open>callerPos\<close> equals the zero vector and the fine tier of the record has a
  waypoint left, \<^verbatim>\<open>NextWayPoint\<close> takes the waypoint at the tail of the fine tier (the
  next one) for the caller position, before it checks for refinement and before it drops
  the waypoints within \<^verbatim>\<open>minDistance\<close>, and the call is the call with that waypoint as
  caller position. Past the early returns, the call is this: the refinement is decided by
  the distances of the next medium and coarse waypoints to that waypoint, and made from
  it; then the waypoints of the fine tier are dropped, from the next one on, as long as
  they are within \<^verbatim>\<open>minDistance\<close> of that waypoint and are not the goal of the tier; the
  first waypoint that is not dropped is removed from the tier and returned; when every
  waypoint is dropped, the final goal or the no-path point is returned if the other tiers
  are empty too, and otherwise the call is retried with that waypoint as caller position.
\<close>

theorem NextWayPoint_zero_callerPos:
  assumes "GetMultiPath s pathID = Some mp" and "path (maxResPath mp) \<noteq> []"
    and "float3_eq env callerPos ZeroVector"
  shows "NextWayPoint_callerPos env mp callerPos = last (path (maxResPath mp))
    \<and> NextWayPoint env pathID callerPos minDistance numRetries ownr synced s
        = NextWayPoint env pathID (last (path (maxResPath mp))) minDistance numRetries ownr synced s
    \<and> (pathID \<noteq> 0 \<and> \<not> numRetries > 4 \<longrightarrow>
         NextWayPoint env pathID callerPos minDistance numRetries ownr synced s =
           (let tail = last (path (maxResPath mp));
                st1 = (if needs_MedRes2MaxRes env mp tail
                       then let st0 = (if needs_LowRes2MedRes env mp tail
                                       then LowRes2MedRes env tail ownr synced (mp, calls s)
                                       else (mp, calls s));
                                st2 = MedRes2MaxRes env tail ownr synced
                                        (fst st0, UnBlock (caller (fst st0)) (snd st0))
                            in (fst st2, Block (caller (fst st2)) (snd st2))
                       else (mp, calls s));
                mp1 = fst st1;
                rest = dropWhile (\<lambda>w. SqDistance2D tail w < Square minDistance
                                      \<and> \<not> float3_eq env w (pathGoal (maxResPath mp1)))
                         (rev (path (maxResPath mp1)));
                s' = (s\<lparr>calls := snd st1\<rparr>)\<lparr>pathMap := (pathMap s)
                       (pathID \<mapsto> mp1\<lparr>maxResPath := (maxResPath mp1)\<lparr>path := rev (tl rest)\<rparr>\<rparr>)\<rparr>
            in case rest of
                 waypoint # ws \<Rightarrow> (waypoint\<lparr>fy := 0\<rparr>, s')
               | [] \<Rightarrow>
                   if path (lowResPath mp1) = [] \<and> path (medResPath mp1) = []
                   then ((if searchResult mp1 = Ok then finalGoal mp1 else noPathPoint)\<lparr>fy := 0\<rparr>, s')
                   else
                     ((fst (NextWayPoint env pathID tail minDistance (numRetries + 1) ownr synced s'))
                        \<lparr>fy := 0\<rparr>,
                      snd (NextWayPoint env pathID tail minDistance (numRetries + 1) ownr synced s'))))"
proof (intro conjI impI)
  show c1: "NextWayPoint_callerPos env mp callerPos = last (path (maxResPath mp))"
    using assms(2,3) by (simp add: NextWayPoint_callerPos_def)
  have c2: "NextWayPoint_callerPos env mp (last (path (maxResPath mp))) = last (path (maxResPath mp))"
    using assms(2) by (simp add: NextWayPoint_callerPos_def)
  show "NextWayPoint env pathID callerPos minDistance numRetries ownr synced s
        = NextWayPoint env pathID (last (path (maxResPath mp))) minDistance numRetries ownr synced s"
  proof (cases "pathID = 0 \<or> numRetries > 4")
    case True
    then have "pathID = 0 \<or> numRetries > 4 \<or> GetMultiPath s pathID = None" by blast
    then show ?thesis by (simp only: NextWayPoint_exit)
  next
    case False
    then have h: "pathID \<noteq> 0" "\<not> numRetries > 4" by simp_all
    show ?thesis unfolding NextWayPoint_unfold [OF h assms(1)] c1 c2 by simp
  qed
next
  assume "pathID \<noteq> 0 \<and> \<not> numRetries > 4"
  then have h: "pathID \<noteq> 0" "\<not> numRetries > 4" by simp_all
  let ?tail = "last (path (maxResPath mp))"
  have cp: "NextWayPoint_callerPos env mp callerPos = ?tail"
    using assms(2,3) by (simp add: NextWayPoint_callerPos_def)
  have r: "NextWayPoint_refine env c ownr synced (mp, cs) =
      (if needs_MedRes2MaxRes env mp c
       then let st0 = (if needs_LowRes2MedRes env mp c
                       then LowRes2MedRes env c ownr synced (mp, cs)
                       else (mp, cs));
                st2 = MedRes2MaxRes env c ownr synced (fst st0, UnBlock (caller (fst st0)) (snd st0))
            in (fst st2, Block (caller (fst st2)) (snd st2))
       else (mp, cs))" for c cs
    by (simp add: NextWayPoint_refine_def Let_def case_prod_beta)
  define st1 where "st1 = NextWayPoint_refine env ?tail ownr synced (mp, calls s)"
  define rest where "rest = dropWhile (\<lambda>w. SqDistance2D ?tail w < Square minDistance
                                      \<and> \<not> float3_eq env w (pathGoal (maxResPath (fst st1))))
                         (rev (path (maxResPath (fst st1))))"
  have lp: "NextWayPoint_loop env ?tail minDistance (fst st1) =
     (case rest of
        w # ws \<Rightarrow> (Some w, (fst st1)\<lparr>maxResPath := (maxResPath (fst st1))\<lparr>path := rev ws\<rparr>\<rparr>)
      | [] \<Rightarrow>
          (if path (lowResPath (fst st1)) = [] \<and> path (medResPath (fst st1)) = []
           then (if searchResult (fst st1) = Ok then Some (finalGoal (fst st1)) else Some noPathPoint)
           else None,
           (fst st1)\<lparr>maxResPath := (maxResPath (fst st1))\<lparr>path := []\<rparr>\<rparr>))"
    unfolding rest_def by (rule NextWayPoint_loop_eq)
  have "NextWayPoint env pathID callerPos minDistance numRetries ownr synced s =
     (let mp1 = fst st1;
          s' = (s\<lparr>calls := snd st1\<rparr>)\<lparr>pathMap := (pathMap s)
                 (pathID \<mapsto> mp1\<lparr>maxResPath := (maxResPath mp1)\<lparr>path := rev (tl rest)\<rparr>\<rparr>)\<rparr>
      in case rest of
           waypoint # ws \<Rightarrow> (waypoint\<lparr>fy := 0\<rparr>, s')
         | [] \<Rightarrow>
             if path (lowResPath mp1) = [] \<and> path (medResPath mp1) = []
             then ((if searchResult mp1 = Ok then finalGoal mp1 else noPathPoint)\<lparr>fy := 0\<rparr>, s')
             else
               ((fst (NextWayPoint env pathID ?tail minDistance (numRetries + 1) ownr synced s'))
                  \<lparr>fy := 0\<rparr>,
                snd (NextWayPoint env pathID ?tail minDistance (numRetries + 1) ownr synced s')))"
    unfolding NextWayPoint_unfold [OF h assms(1)] cp st1_def [symmetric] Let_def lp
    by (cases rest) simp_all
  then show "NextWayPoint env pathID callerPos minDistance numRetries ownr synced s =
           (let tail = last (path (maxResPath mp));
                st1 = (if needs_MedRes2MaxRes env mp tail
                       then let st0 = (if needs_LowRes2MedRes env mp tail
                                       then LowRes2MedRes env tail ownr synced (mp, calls s)
                                       else (mp, calls s));
                                st2 = MedRes2MaxRes env tail ownr synced
                                        (fst st0, UnBlock (caller (fst st0)) (snd st0))
                            in (fst st2, Block (caller (fst st2)) (snd st2))
                       else (mp, calls s));
                mp1 = fst st1;
                rest = dropWhile (\<lambda>w. SqDistance2D tail w < Square minDistance
                                      \<and> \<not> float3_eq env w (pathGoal (maxResPath mp1)))
                         (rev (path (maxResPath mp1)));
                s' = (s\<lparr>calls := snd st1\<rparr>)\<lparr>pathMap := (pathMap s)
                       (pathID \<mapsto> mp1\<lparr>maxResPath := (maxResPath mp1)\<lparr>path := rev (tl rest)\<rparr>\<rparr>)\<rparr>
            in case rest of
                 waypoint # ws \<Rightarrow> (waypoint\<lparr>fy := 0\<rparr>, s')
               | [] \<Rightarrow>
                   if path (lowResPath mp1) = [] \<and> path (medResPath mp1) = []
                   then ((if searchResult mp1 = Ok then finalGoal mp1 else noPathPoint)\<lparr>fy := 0\<rparr>, s')
                   else
                     ((fst (NextWayPoint env pathID tail minDistance (numRetries + 1) ownr synced s'))
                        \<lparr>fy := 0\<rparr>,
                      snd (NextWayPoint env pathID tail minDistance (numRetries + 1) ownr synced s')))"
    unfolding Let_def rest_def st1_def r .
qed

text \<open>The entity of \<open>far_state\<close> asks for its next waypoint with a zero position and a
  \<^verbatim>\<open>minDistance\<close> of 10. The fine tier is refined, because the next waypoint of the
  medium tier is within \<open>MIN_DETAILED_DISTANCE\<close> squares of the waypoint \<open>(80, 0)\<close> (it is
  not within that distance of the origin), and the fine search starts from that waypoint;
  the waypoints \<open>(80, 0)\<close> and \<open>(88, 0)\<close>, within 10 of it, are dropped, and \<open>(96, 0)\<close> is
  returned.\<close>

theorem NextWayPoint_zero_callerPos_witness:
  "NextWayPoint test_env 1 ZeroVector 10 0 None True far_state
     = NextWayPoint test_env 1 (pos 80 0) 10 0 None True far_state
   \<and> fst (NextWayPoint test_env 1 ZeroVector 10 0 None True far_state) = pos 96 0
   \<and> calls (snd (NextWayPoint test_env 1 ZeroVector 10 0 None True far_state))
       = [CallGetPath MaxRes test_md (pos 80 0)
            (CRangedGoalWithCircularConstraint (pos 80 0) (pos 400 0) 0 2 1000) 8192 None True]
   \<and> path (maxResPath (the (pathMap (snd (NextWayPoint test_env 1 ZeroVector 10 0 None True far_state)) 1)))
       = []"
proof -
  have m: "GetMultiPath far_state 1 = Some far_mp"
    by (simp add: GetMultiPath_def far_state_def)
  have p: "path (maxResPath far_mp) \<noteq> []" "last (path (maxResPath far_mp)) = pos 80 0"
    by (simp_all add: far_mp_def)
  have z: "float3_eq test_env ZeroVector ZeroVector"
    by (simp add: test_env_def)
  have h: "(1::pathid) \<noteq> 0 \<and> \<not> (0::int) > 4" by simp
  note T = NextWayPoint_zero_callerPos [OF m p(1) z, of 10 0 None True]
  have e1: "NextWayPoint test_env 1 ZeroVector 10 0 None True far_state
        = NextWayPoint test_env 1 (pos 80 0) 10 0 None True far_state"
    using T unfolding p(2) by blast
  note E = T [THEN conjunct2, THEN conjunct2, rule_format, OF h]
  have e2: "NextWayPoint test_env 1 ZeroVector 10 0 None True far_state
      = (pos 96 0,
         far_state\<lparr>calls := [CallGetPath MaxRes test_md (pos 80 0)
              (CRangedGoalWithCircularConstraint (pos 80 0) (pos 400 0) 0 2 1000) 8192 None True],
           pathMap := [1 \<mapsto> far_mp\<lparr>maxResPath := \<lparr>path = [], squares = [(12, 0), (11, 0), (10, 0)],
                                                     pathGoal = pos 400 0\<rparr>,
                                     medResPath := \<lparr>path = [pos 400 0], squares = [(50, 0), (20, 0)],
                                                     pathGoal = pos 400 0\<rparr>\<rparr>]\<rparr>)"
    unfolding E
    by (simp add: far_state_def far_mp_def init_state_def
      needs_MedRes2MaxRes_def needs_LowRes2MedRes_def
      MedRes2MaxRes_def pop_back_while.simps
      maxResPF_GetPath_def UnBlock_def Block_def Let_def
      test_env_def test_md_def pos_def test_def_def newMultiPath_def emptyPath_def
      CRangedGoalWithCircularConstraint_def SqDistance2D_def Square_def)
  have f: "fst (NextWayPoint test_env 1 ZeroVector 10 0 None True far_state) = pos 96 0"
    "calls (snd (NextWayPoint test_env 1 ZeroVector 10 0 None True far_state))
       = [CallGetPath MaxRes test_md (pos 80 0)
            (CRangedGoalWithCircularConstraint (pos 80 0) (pos 400 0) 0 2 1000) 8192 None True]"
    "path (maxResPath (the (pathMap (snd (NextWayPoint test_env 1 ZeroVector 10 0 None True far_state)) 1)))
       = []"
    by (simp_all add: e2)
  from e1 f show ?thesis by blast
qed

text \<open>From a position close to the origin that is not the zero vector, the same request
  makes no search and returns the next waypoint \<open>(80, 0)\<close>.\<close>

lemma NextWayPoint_near_origin:
  "NextWayPoint test_env 1 (pos (1 / 1000) 0) 10 0 None True far_state
     = (pos 80 0,
        far_state\<lparr>pathMap := [1 \<mapsto> far_mp\<lparr>maxResPath := (maxResPath far_mp)
                                   \<lparr>path := [pos 96 0, pos 88 0]\<rparr>\<rparr>]\<rparr>)"
  apply (subst NextWayPoint.simps)
  apply (simp add: far_state_def far_mp_def GetMultiPath_def init_state_def
      NextWayPoint_refine_def needs_MedRes2MaxRes_def needs_LowRes2MedRes_def
      NextWayPoint_loop.simps Let_def NextWayPoint_callerPos_def
      test_env_def test_md_def pos_def test_def_def newMultiPath_def emptyPath_def
      CRangedGoalWithCircularConstraint_def SqDistance2D_def Square_def ZeroVector_def)
  done

end
